theory Spec2Isabelle
  imports Main "HOL-Library.Word"
begin

section \<open>JavaScript values\<close>

text \<open>
  The values that flow through both scripts are the JSON-serialisable JavaScript
  values: what \<^verbatim>\<open>JSON.parse\<close> can return, what \<^verbatim>\<open>e.parameter\<close> holds, what the
  caller passes as \<^verbatim>\<open>payload.meta\<close>. An object is an association list in the
  script engine's own property order. A number \<open>JNum n\<close> is the integral number value
  \<open>sint n\<close>, from -2^53 up to 2^53 - 1: each of these is a number value of the language
  exactly, and prints in plain digits. The other number values (fractions, and the
  magnitudes from 2^53 on, which the language rounds and from 10^21 on prints with an
  exponent) are floating point and outside this development.
  \<^verbatim>\<open>undefined\<close> is not a JSON value: a property read returns a \<open>json option\<close>
  and \<open>None\<close> is \<^verbatim>\<open>undefined\<close>.
\<close>

datatype json =
    JNull
  | JBool bool
  | JNum "54 word"
  | JStr string
  | JArr "json list"
  | JObj "(string \<times> json) list"

text \<open>The exceptions that the scripts raise or that the runtime raises under them.\<close>

datatype js_error =
    Error string
  | TypeError string
  | RangeError string
  | SyntaxError string

fun message :: "js_error \<Rightarrow> string" where
  "message (Error m) = m"
| "message (TypeError m) = m"
| "message (RangeError m) = m"
| "message (SyntaxError m) = m"

text \<open>A statement either completes with a value or throws.\<close>

datatype 'a completion = Return 'a | Throw js_error

text \<open>\<^verbatim>\<open>ToBoolean\<close> of a property read: \<^verbatim>\<open>!x\<close> is \<open>\<not> truthy x\<close>.\<close>

fun truthy :: "json option \<Rightarrow> bool" where
  "truthy None = False"
| "truthy (Some JNull) = False"
| "truthy (Some (JBool b)) = b"
| "truthy (Some (JNum n)) = (n \<noteq> 0)"
| "truthy (Some (JStr s)) = (s \<noteq> [])"
| "truthy (Some (JArr xs)) = True"
| "truthy (Some (JObj kvs)) = True"

text \<open>
  Reading one of the properties the scripts read (\<^verbatim>\<open>event\<close>, \<^verbatim>\<open>userId\<close>, \<^verbatim>\<open>ts\<close>,
  \<^verbatim>\<open>variant\<close>, \<^verbatim>\<open>meta\<close>, \<^verbatim>\<open>ok\<close>; none of them is on a prototype): on \<^verbatim>\<open>null\<close> the
  runtime throws a TypeError, on an object the own property is read, on any other value
  the result is \<^verbatim>\<open>undefined\<close>.
\<close>

fun getProp :: "json \<Rightarrow> string \<Rightarrow> (json option) completion" where
  "getProp JNull k =
     Throw (TypeError (''Cannot read properties of null (reading '' @ [CHR 0x27] @ k @ [CHR 0x27] @ '')''))"
| "getProp (JObj kvs) k = Return (map_of kvs k)"
| "getProp v k = Return None"

section \<open>Strings and numbers of the standard library\<close>

text \<open>
  A string is the list of its code units, and a character here is a code unit from 0
  to 255: \<open>CHR 0xA0\<close> is U+00A0. Strings with a code unit above 255 are outside this
  development. \<^verbatim>\<open>trim\<close> and \<^verbatim>\<open>parseInt\<close> strip the white space and the line
  terminators of the language. Those from 0 to 255 are tab, line feed, vertical tab,
  form feed, carriage return, space and the no-break space U+00A0; the others (U+1680,
  U+2000 to U+200A, U+2028, U+2029, U+202F, U+205F, U+3000, U+FEFF) lie above 255.
\<close>

definition isWhiteSpace :: "char \<Rightarrow> bool" where
  "isWhiteSpace c =
     (c \<in> set [CHR 0x09, CHR 0x0A, CHR 0x0B, CHR 0x0C, CHR 0x0D, CHR 0x20, CHR 0xA0])"

definition trim :: "string \<Rightarrow> string" where
  "trim s = rev (dropWhile isWhiteSpace (rev (dropWhile isWhiteSpace s)))"

fun startsWith :: "string \<Rightarrow> string \<Rightarrow> bool" where
  "startsWith s [] = True"
| "startsWith [] (p # ps) = False"
| "startsWith (c # cs) (p # ps) = (c = p \<and> startsWith cs ps)"

definition endsWith :: "string \<Rightarrow> string \<Rightarrow> bool" where
  "endsWith s p = startsWith (rev s) (rev p)"

fun includes_str :: "string \<Rightarrow> string \<Rightarrow> bool" where
  "includes_str [] p = (p = [])"
| "includes_str (c # cs) p = (startsWith (c # cs) p \<or> includes_str cs p)"

text \<open>\<^verbatim>\<open>String.prototype.substr(start, length)\<close> for a non-negative start.\<close>

definition substr :: "string \<Rightarrow> nat \<Rightarrow> nat \<Rightarrow> string" where
  "substr s start len = take len (drop start s)"

text \<open>
  \<^verbatim>\<open>Number.prototype.toString(radix)\<close> on an integral number: the digits
  \<^verbatim>\<open>0-9a-z\<close>, most significant first, after a minus sign for a negative number.
  The scripts use the radices 10 and 36; the language allows 2 to 36, and prints in
  plain digits the magnitudes below 10^21: every \<open>JNum\<close>, and every reading of the
  clock, which lies within the range of dates.
\<close>

definition digit_char :: "nat \<Rightarrow> char" where
  "digit_char d = ''0123456789abcdefghijklmnopqrstuvwxyz'' ! d"

function digits_of :: "nat \<Rightarrow> nat \<Rightarrow> string" where
  "digits_of radix n =
     (if n < radix \<or> radix < 2 then [digit_char n]
      else digits_of radix (n div radix) @ [digit_char (n mod radix)])"
  by pat_completeness auto
termination
  by (relation "measure (\<lambda>(radix, n). n)") auto

declare digits_of.simps [simp del]

definition Number_toString :: "int \<Rightarrow> nat \<Rightarrow> string" where
  "Number_toString n radix =
     (if n < 0 then CHR ''-'' # digits_of radix (nat (- n)) else digits_of radix (nat n))"

text \<open>
  \<^verbatim>\<open>parseInt(string)\<close> with no radix argument: leading white space is skipped, a sign
  is read, a \<^verbatim>\<open>0x\<close> prefix selects radix 16, the longest prefix of digits is read
  and whatever follows it is ignored; with no digit at all the result is \<^verbatim>\<open>NaN\<close>,
  here \<open>None\<close>. The result is kept as the exact integer.
\<close>

definition digit_value :: "char \<Rightarrow> nat" where
  "digit_value c =
     (let n = (of_char c :: nat)
      in if 48 \<le> n \<and> n \<le> 57 then n - 48
         else if 97 \<le> n \<and> n \<le> 122 then n - 87
         else if 65 \<le> n \<and> n \<le> 90 then n - 55
         else 36)"

definition is_digit :: "nat \<Rightarrow> char \<Rightarrow> bool" where
  "is_digit radix c = (digit_value c < radix)"

definition digits_value :: "nat \<Rightarrow> string \<Rightarrow> nat" where
  "digits_value radix Z = foldl (\<lambda>a c. a * radix + digit_value c) 0 Z"

definition parseInt :: "string \<Rightarrow> int option" where
  "parseInt inputString =
     (let S = dropWhile isWhiteSpace inputString;
          sign = (if startsWith S ''-'' then - 1 else 1 :: int);
          S = (if startsWith S ''+'' \<or> startsWith S ''-'' then tl S else S);
          hex = (startsWith S ''0x'' \<or> startsWith S ''0X'');
          R = (if hex then 16 else 10);
          S = (if hex then drop 2 S else S);
          Z = takeWhile (is_digit R) S
      in if Z = [] then None else Some (sign * int (digits_value R Z)))"

text \<open>
  \<^verbatim>\<open>ToString\<close>, which \<^verbatim>\<open>parseInt\<close> applies to its argument first: an array is the
  comma-joined \<^verbatim>\<open>ToString\<close> of its elements with \<^verbatim>\<open>null\<close> as the empty string, an
  object is \<^verbatim>\<open>[object Object]\<close>.
\<close>

fun join :: "string \<Rightarrow> string list \<Rightarrow> string" where
  "join sep [] = []"
| "join sep [x] = x"
| "join sep (x # y # ys) = x @ sep @ join sep (y # ys)"

fun ToString :: "json \<Rightarrow> string" where
  "ToString JNull = ''null''"
| "ToString (JBool b) = (if b then ''true'' else ''false'')"
| "ToString (JNum n) = Number_toString (sint n) 10"
| "ToString (JStr s) = s"
| "ToString (JArr xs) = join '','' (map (\<lambda>x. if x = JNull then [] else ToString x) xs)"
| "ToString (JObj kvs) = ''[object Object]''"

section \<open>Dates\<close>

text \<open>
  A \<^verbatim>\<open>Date\<close> holds a time value: integral milliseconds since the epoch, or
  \<^verbatim>\<open>NaN\<close> (\<open>None\<close>, an invalid date). \<^verbatim>\<open>new Date(number)\<close> clips the number: a
  magnitude above 8.64e15 gives the invalid date. Every integer up to 2^53 is a number
  value and 2^53 is above the bound, so clipping the exact integer and clipping the
  number value that \<^verbatim>\<open>parseInt\<close> rounds it to give the same date.
\<close>

definition TimeClip :: "int option \<Rightarrow> int option" where
  "TimeClip time =
     (case time of None \<Rightarrow> None
      | Some t \<Rightarrow> if \<bar>t\<bar> > 8640000000000000 then None else Some t)"

definition new_Date :: "int option \<Rightarrow> int option" where
  "new_Date v = TimeClip v"

definition pad :: "nat \<Rightarrow> nat \<Rightarrow> string" where
  "pad width n = (let ds = digits_of 10 n in replicate (width - length ds) CHR ''0'' @ ds)"

text \<open>The proleptic Gregorian date (year, month, day of month) of a day number.\<close>

definition civil_from_days :: "int \<Rightarrow> int \<times> nat \<times> nat" where
  "civil_from_days days =
     (let z = days + 719468;
          era = z div 146097;
          doe = z mod 146097;
          yoe = (doe - doe div 1460 + doe div 36524 - doe div 146096) div 365;
          doy = doe - (365 * yoe + yoe div 4 - yoe div 100);
          mp = (5 * doy + 2) div 153;
          d = doy - (153 * mp + 2) div 5 + 1;
          m = (if mp < 10 then mp + 3 else mp - 9);
          y = yoe + era * 400 + (if m \<le> 2 then 1 else 0)
      in (y, nat m, nat d))"

definition year_string :: "int \<Rightarrow> string" where
  "year_string y =
     (if 0 \<le> y \<and> y \<le> 9999 then pad 4 (nat y)
      else (if y < 0 then ''-'' else ''+'') @ pad 6 (nat \<bar>y\<bar>))"

text \<open>
  \<^verbatim>\<open>Date.prototype.toISOString()\<close>: a RangeError on the invalid date, otherwise
  \<^verbatim>\<open>YYYY-MM-DDTHH:mm:ss.sssZ\<close> in UTC.
\<close>

definition toISOString :: "int option \<Rightarrow> string completion" where
  "toISOString tv =
     (case tv of
        None \<Rightarrow> Throw (RangeError ''Invalid time value'')
      | Some t \<Rightarrow>
          (let (y, m, d) = civil_from_days (t div 86400000);
               ms = nat (t mod 86400000)
           in Return (year_string y @ ''-'' @ pad 2 m @ ''-'' @ pad 2 d @ ''T''
                 @ pad 2 (ms div 3600000) @ '':'' @ pad 2 (ms div 60000 mod 60) @ '':''
                 @ pad 2 (ms div 1000 mod 60) @ ''.'' @ pad 3 (ms mod 1000) @ ''Z'')))"

section \<open>JSON text\<close>

text \<open>
  \<^verbatim>\<open>JSON.stringify\<close> with one argument: no white space, the properties of an object
  in property order, strings quoted with the short escapes and \<^verbatim>\<open>\u00XX\<close> for the
  other control characters.
\<close>

definition escape_char :: "char \<Rightarrow> string" where
  "escape_char c =
     (if c = CHR 0x08 then [CHR 0x5C, CHR ''b'']
      else if c = CHR 0x09 then [CHR 0x5C, CHR ''t'']
      else if c = CHR 0x0A then [CHR 0x5C, CHR ''n'']
      else if c = CHR 0x0C then [CHR 0x5C, CHR ''f'']
      else if c = CHR 0x0D then [CHR 0x5C, CHR ''r'']
      else if c = CHR 0x22 then [CHR 0x5C, CHR 0x22]
      else if c = CHR 0x5C then [CHR 0x5C, CHR 0x5C]
      else if (of_char c :: nat) < 32
        then [CHR 0x5C, CHR ''u'', CHR ''0'', CHR ''0'',
              digit_char (of_char c div 16), digit_char (of_char c mod 16)]
      else [c])"

definition QuoteJSONString :: "string \<Rightarrow> string" where
  "QuoteJSONString s = [CHR 0x22] @ concat (map escape_char s) @ [CHR 0x22]"

fun JSON_stringify :: "json \<Rightarrow> string" where
  "JSON_stringify JNull = ''null''"
| "JSON_stringify (JBool b) = (if b then ''true'' else ''false'')"
| "JSON_stringify (JNum n) = Number_toString (sint n) 10"
| "JSON_stringify (JStr s) = QuoteJSONString s"
| "JSON_stringify (JArr xs) = ''['' @ join '','' (map JSON_stringify xs) @ '']''"
| "JSON_stringify (JObj kvs) =
     ''{'' @ join '','' (map (\<lambda>kv. QuoteJSONString (fst kv) @ '':'' @ JSON_stringify (snd kv)) kvs)
       @ ''}''"

section \<open>The spreadsheet service\<close>

text \<open>
  The ingest endpoint runs on a hosted script platform and reaches its store through the
  platform's spreadsheet service. What the endpoint observes of that service is
  modelled here: a cell holds the JavaScript value that was written to it, a sheet is its
  rows of content with the formatting the endpoint sets, a spreadsheet is its sheets by
  name, whether the script may edit it, and how many more writes the service will carry
  out on it. The service fails in two ways. It refuses by how the script is deployed: an
  id that cannot be opened, a script bound to no spreadsheet, a spreadsheet that the
  script may not edit. And it fails under way (a quota, a time limit, an outage): any
  write may be the one that throws, and the writes carried out before it stay. The
  wording of the service's own error messages is representative.
\<close>

type_synonym row = "json list"

record sheet =
  cells :: "row list"
  frozenRows :: nat
  headerBackground :: string
  headerFontWeight :: string
  columnWidths :: "nat \<rightharpoonup> nat"

record spreadsheet =
  sheets :: "string \<rightharpoonup> sheet"
  may_edit :: bool
  writes_left :: "nat option"

text \<open>
  A spreadsheet is editable when the script may edit it and the service sets no end to
  its writes (\<open>None\<close>). With \<open>Some n\<close> the next \<open>n\<close> writes are carried out and
  the one after them throws.
\<close>

definition editable :: "spreadsheet \<Rightarrow> bool" where
  "editable ss = (may_edit ss \<and> writes_left ss = None)"

definition service_failed :: js_error where
  "service_failed = Error ''Service Spreadsheets failed while accessing document.''"

definition spend :: "spreadsheet \<Rightarrow> spreadsheet option" where
  "spend ss =
     (case writes_left ss of
        None \<Rightarrow> Some ss
      | Some 0 \<Rightarrow> None
      | Some (Suc n) \<Rightarrow> Some (ss\<lparr>writes_left := Some n\<rparr>))"

text \<open>
  The world of one request: the script properties, the spreadsheets that exist (by id),
  the spreadsheet the script is bound to (none for a standalone script), and the
  console.
\<close>

record world =
  scriptProperties :: "string \<rightharpoonup> string"
  files :: "string \<rightharpoonup> spreadsheet"
  activeSpreadsheet :: "string option"
  console :: "string list"

text \<open>A service call runs in the world: it returns or throws, and leaves a world.\<close>

type_synonym 'a action = "world \<Rightarrow> 'a completion \<times> world"

definition andThen :: "'a action \<Rightarrow> ('a \<Rightarrow> 'b action) \<Rightarrow> 'b action" where
  "andThen f g w =
     (case f w of
        (Throw err, w') \<Rightarrow> (Throw err, w')
      | (Return x, w') \<Rightarrow> g x w')"

text \<open>Handles: a spreadsheet is named by its id, a sheet by its spreadsheet and its name.\<close>

type_synonym spreadsheet_handle = string
type_synonym sheet_handle = "string \<times> string"

definition getProperty :: "string \<Rightarrow> (string option) action" where
  "getProperty key w = (Return (scriptProperties w key), w)"

definition cannot_open :: js_error where
  "cannot_open =
     Error ''Unexpected error while getting the method or property openById on object SpreadsheetApp.''"

definition openById :: "string \<Rightarrow> spreadsheet_handle action" where
  "openById ident w =
     (case files w ident of
        None \<Rightarrow> (Throw cannot_open, w)
      | Some ss \<Rightarrow> (Return ident, w))"

text \<open>\<^verbatim>\<open>getActiveSpreadsheet()\<close> returns \<^verbatim>\<open>null\<close> when the script is bound to none.\<close>

definition getActiveSpreadsheet :: "(spreadsheet_handle option) action" where
  "getActiveSpreadsheet w =
     (case activeSpreadsheet w of
        None \<Rightarrow> (Return None, w)
      | Some ident \<Rightarrow> (Return (if ident \<in> dom (files w) then Some ident else None), w))"

definition getSheetByName :: "spreadsheet_handle \<Rightarrow> string \<Rightarrow> (sheet_handle option) action" where
  "getSheetByName ident name w =
     (case files w ident of
        None \<Rightarrow> (Throw (Error ''Document is missing''), w)
      | Some ss \<Rightarrow> (Return (if name \<in> dom (sheets ss) then Some (ident, name) else None), w))"

definition new_sheet :: sheet where
  "new_sheet = \<lparr>cells = [], frozenRows = 0, headerBackground = ''#ffffff'',
                headerFontWeight = ''normal'', columnWidths = Map.empty\<rparr>"

definition no_permission :: js_error where
  "no_permission = Error ''You do not have permission to edit this document.''"

definition insertSheet :: "spreadsheet_handle \<Rightarrow> string \<Rightarrow> sheet_handle action" where
  "insertSheet ident name w =
     (case files w ident of
        None \<Rightarrow> (Throw (Error ''Document is missing''), w)
      | Some ss \<Rightarrow>
          if \<not> may_edit ss then (Throw no_permission, w)
          else if name \<in> dom (sheets ss)
            then (Throw (Error ''A sheet with that name already exists.''), w)
          else (case spend ss of
                  None \<Rightarrow> (Throw service_failed, w)
                | Some ss' \<Rightarrow>
                    (Return (ident, name),
                     w\<lparr>files := (files w)(ident \<mapsto> ss'\<lparr>sheets := (sheets ss')(name \<mapsto> new_sheet)\<rparr>)\<rparr>)))"

text \<open>
  Every writing call on a sheet: refused on a spreadsheet the script may not edit, and
  failing when the service carries out no further write.
\<close>

definition modify_sheet :: "sheet_handle \<Rightarrow> (sheet \<Rightarrow> sheet) \<Rightarrow> unit action" where
  "modify_sheet h f w =
     (case files w (fst h) of
        None \<Rightarrow> (Throw (Error ''Document is missing''), w)
      | Some ss \<Rightarrow>
          if \<not> may_edit ss then (Throw no_permission, w)
          else (case sheets ss (snd h) of
                  None \<Rightarrow> (Throw (Error ''Sheet is missing''), w)
                | Some sh \<Rightarrow>
                    (case spend ss of
                       None \<Rightarrow> (Throw service_failed, w)
                     | Some ss' \<Rightarrow>
                         (Return (),
                          w\<lparr>files := (files w)(fst h \<mapsto>
                                       ss'\<lparr>sheets := (sheets ss')(snd h \<mapsto> f sh)\<rparr>)\<rparr>))))"

text \<open>\<^verbatim>\<open>getRange(1, 1, 1, n).setValues([values])\<close>: the first \<open>n\<close> cells of row 1.\<close>

definition setValues_row1 :: "sheet_handle \<Rightarrow> row \<Rightarrow> unit action" where
  "setValues_row1 h vs =
     modify_sheet h (\<lambda>sh. sh\<lparr>cells :=
       (case cells sh of [] \<Rightarrow> [vs] | r # rs \<Rightarrow> (vs @ drop (length vs) r) # rs)\<rparr>)"

definition setFrozenRows :: "sheet_handle \<Rightarrow> nat \<Rightarrow> unit action" where
  "setFrozenRows h n = modify_sheet h (\<lambda>sh. sh\<lparr>frozenRows := n\<rparr>)"

definition setBackground_row1 :: "sheet_handle \<Rightarrow> string \<Rightarrow> unit action" where
  "setBackground_row1 h colour = modify_sheet h (\<lambda>sh. sh\<lparr>headerBackground := colour\<rparr>)"

definition setFontWeight_row1 :: "sheet_handle \<Rightarrow> string \<Rightarrow> unit action" where
  "setFontWeight_row1 h weight = modify_sheet h (\<lambda>sh. sh\<lparr>headerFontWeight := weight\<rparr>)"

definition setColumnWidth :: "sheet_handle \<Rightarrow> nat \<Rightarrow> nat \<Rightarrow> unit action" where
  "setColumnWidth h col width =
     modify_sheet h (\<lambda>sh. sh\<lparr>columnWidths := (columnWidths sh)(col \<mapsto> width)\<rparr>)"

text \<open>\<^verbatim>\<open>appendRow\<close>: the row goes after the last row with content.\<close>

definition appendRow :: "sheet_handle \<Rightarrow> row \<Rightarrow> unit action" where
  "appendRow h rowContents = modify_sheet h (\<lambda>sh. sh\<lparr>cells := cells sh @ [rowContents]\<rparr>)"

section \<open>The ingest endpoint (dopost.js)\<close>

text \<open>\<^verbatim>\<open>initSheetHeaders(sheet)\<close>\<close>

definition headers :: row where
  "headers = [JStr ''ts_iso'', JStr ''event'', JStr ''variant'', JStr ''userId'', JStr ''meta'']"

definition initSheetHeaders :: "sheet_handle \<Rightarrow> unit action" where
  "initSheetHeaders sheet =
     andThen (setValues_row1 sheet headers) (\<lambda>_.
     andThen (setFrozenRows sheet 1) (\<lambda>_.
     andThen (setBackground_row1 sheet ''#f0f0f0'') (\<lambda>_.
     andThen (setFontWeight_row1 sheet ''bold'') (\<lambda>_.
     andThen (setColumnWidth sheet 1 180) (\<lambda>_.
     andThen (setColumnWidth sheet 2 100) (\<lambda>_.
     andThen (setColumnWidth sheet 3 80) (\<lambda>_.
     andThen (setColumnWidth sheet 4 120) (\<lambda>_.
     setColumnWidth sheet 5 300))))))))"

text \<open>
  \<^verbatim>\<open>getOrCreateLogSheet()\<close>: the spreadsheet named by the script property
  \<^verbatim>\<open>SPREADSHEET_ID\<close> when that is set (and not empty), the bound spreadsheet
  otherwise; its sheet \<^verbatim>\<open>logs\<close>, inserted with its headers when absent (the same
  four lines in both branches of the source, here \<open>logs_of\<close>). A property read on
  the \<^verbatim>\<open>null\<close> that an unbound script gets is a TypeError.
\<close>

definition logs_of :: "spreadsheet_handle \<Rightarrow> sheet_handle action" where
  "logs_of spreadsheet =
     andThen (getSheetByName spreadsheet ''logs'') (\<lambda>sheet.
       case sheet of
         Some sh \<Rightarrow> (\<lambda>w. (Return sh, w))
       | None \<Rightarrow>
           andThen (insertSheet spreadsheet ''logs'') (\<lambda>sh.
           andThen (initSheetHeaders sh) (\<lambda>_ w. (Return sh, w))))"

definition null_spreadsheet :: js_error where
  "null_spreadsheet =
     TypeError (''Cannot read properties of null (reading '' @ [CHR 0x27] @ ''getSheetByName''
       @ [CHR 0x27] @ '')'')"

definition default_logs :: "sheet_handle action" where
  "default_logs =
     andThen getActiveSpreadsheet (\<lambda>spreadsheet.
       case spreadsheet of
         None \<Rightarrow> (\<lambda>w. (Throw null_spreadsheet, w))
       | Some ss \<Rightarrow> logs_of ss)"

definition getOrCreateLogSheet :: "sheet_handle action" where
  "getOrCreateLogSheet =
     andThen (getProperty ''SPREADSHEET_ID'') (\<lambda>spreadsheetId.
       case spreadsheetId of
         None \<Rightarrow> default_logs
       | Some ident \<Rightarrow> if ident \<noteq> [] then andThen (openById ident) logs_of else default_logs)"

text \<open>
  The request event \<^verbatim>\<open>e\<close>: \<^verbatim>\<open>e.postData\<close> with the declared content type and the
  raw body (\<^verbatim>\<open>undefined\<close>, here \<open>None\<close>, on a request without a body), and
  \<^verbatim>\<open>e.parameter\<close>, the object of the decoded form fields: one string for each name.
\<close>

record postData =
  type :: string
  contents :: string

record event_object =
  postData :: "postData option"
  parameter :: "(string \<times> string) list"

definition parameter_object :: "(string \<times> string) list \<Rightarrow> json" where
  "parameter_object ps = JObj (map (\<lambda>(k, v). (k, JStr v)) ps)"

text \<open>Sequencing of the statements of the \<^verbatim>\<open>try\<close> block that do not touch the store.\<close>

definition cbind :: "'a completion \<Rightarrow> ('a \<Rightarrow> 'b completion) \<Rightarrow> 'b completion" where
  "cbind c f = (case c of Throw err \<Rightarrow> Throw err | Return x \<Rightarrow> f x)"

text \<open>
  Lines 13 to 24: the parameters by content type. \<^verbatim>\<open>JSON.parse\<close> is the platform's;
  the endpoint is modelled over any parser, which returns a value or throws.
\<close>

definition parse_params :: "(string \<Rightarrow> json completion) \<Rightarrow> event_object \<Rightarrow> json completion" where
  "parse_params JSON_parse e =
     (case postData e of
        None \<Rightarrow> Throw (TypeError (''Cannot read properties of undefined (reading ''
                  @ [CHR 0x27] @ ''type'' @ [CHR 0x27] @ '')''))
      | Some pd \<Rightarrow>
          if type pd = ''application/x-www-form-urlencoded'' then Return (parameter_object (parameter e))
          else if type pd = ''application/json'' then JSON_parse (contents pd)
          else Throw (Error (''Unsupported content type: '' @ type pd)))"

text \<open>
  Lines 27 to 29: \<^verbatim>\<open>!params.event || !params.userId || !params.ts\<close>, one operand at
  a time. An operand that is not truthy throws; a truthy one is the value read.
\<close>

definition required :: "json option \<Rightarrow> json completion" where
  "required x =
     (case x of
        None \<Rightarrow> Throw (Error ''Missing required parameters'')
      | Some v \<Rightarrow> if truthy x then Return v else Throw (Error ''Missing required parameters''))"

text \<open>\<^verbatim>\<open>x || ''\<close>\<close>

definition or_empty :: "json option \<Rightarrow> json" where
  "or_empty x = (case x of None \<Rightarrow> JStr [] | Some v \<Rightarrow> if truthy x then v else JStr [])"

text \<open>Lines 27 to 39: the validation, the timestamp, the row.\<close>

definition rowData :: "json \<Rightarrow> row completion" where
  "rowData params =
     cbind (cbind (getProp params ''event'') required) (\<lambda>event.
     cbind (cbind (getProp params ''userId'') required) (\<lambda>userId.
     cbind (cbind (getProp params ''ts'') required) (\<lambda>ts.
     cbind (toISOString (new_Date (parseInt (ToString ts)))) (\<lambda>ts_iso.
     cbind (getProp params ''variant'') (\<lambda>variant.
     cbind (getProp params ''meta'') (\<lambda>meta.
     Return [JStr ts_iso, event, or_empty variant, userId, or_empty meta]))))))"

text \<open>The \<^verbatim>\<open>try\<close> block, lines 13 to 43.\<close>

definition doPost_try :: "(string \<Rightarrow> json completion) \<Rightarrow> event_object \<Rightarrow> unit action" where
  "doPost_try JSON_parse e w =
     (case cbind (parse_params JSON_parse e) rowData of
        Throw err \<Rightarrow> (Throw err, w)
      | Return r \<Rightarrow> andThen getOrCreateLogSheet (\<lambda>sheet. appendRow sheet r) w)"

datatype MimeType = TEXT | JSON

record textOutput =
  content :: string
  mimeType :: MimeType

definition ok_true :: json where
  "ok_true = JObj [(''ok'', JBool True)]"

definition ok_false :: "string \<Rightarrow> json" where
  "ok_false msg = JObj [(''ok'', JBool False), (''error'', JStr msg)]"

text \<open>\<^verbatim>\<open>doPost(e)\<close>: the \<^verbatim>\<open>try\<close> block, and the \<^verbatim>\<open>catch\<close> that logs and answers.\<close>

definition doPost :: "(string \<Rightarrow> json completion) \<Rightarrow> event_object \<Rightarrow> world \<Rightarrow> textOutput \<times> world" where
  "doPost JSON_parse e w =
     (case doPost_try JSON_parse e w of
        (Return u, w') \<Rightarrow> (\<lparr>content = JSON_stringify ok_true, mimeType = JSON\<rparr>, w')
      | (Throw err, w') \<Rightarrow>
          (\<lparr>content = JSON_stringify (ok_false (message err)), mimeType = JSON\<rparr>,
           w'\<lparr>console := console w' @ [''Error in doPost: '' @ message err]\<rparr>))"

text \<open>\<^verbatim>\<open>doGet()\<close>\<close>

definition doGet :: textOutput where
  "doGet = \<lparr>content = JSON_stringify (JObj [(''status'', JStr ''ready''),
               (''instructions'', JStr ''Send POST requests with event data'')]),
            mimeType = JSON\<rparr>"

text \<open>
  A required field fails the check of line 27 when reading it gives a value that is not
  truthy: \<^verbatim>\<open>undefined\<close> (the field is absent), the empty string, and in a JSON body
  also \<^verbatim>\<open>null\<close>, \<^verbatim>\<open>false\<close> and \<^verbatim>\<open>0\<close>.
\<close>

definition falsy_field :: "json \<Rightarrow> string \<Rightarrow> bool" where
  "falsy_field params k = (case getProp params k of Return x \<Rightarrow> \<not> truthy x | Throw err \<Rightarrow> False)"

text \<open>
  What the endpoint does to the store, said directly: the spreadsheet it selects (or the
  error of selecting it) and the sheet \<^verbatim>\<open>logs\<close> as it is once ensured. These are
  compared with \<open>getOrCreateLogSheet\<close> and \<open>appendRow\<close> below.
\<close>

definition fresh_logs :: sheet where
  "fresh_logs = \<lparr>cells = [headers], frozenRows = 1, headerBackground = ''#f0f0f0'',
     headerFontWeight = ''bold'',
     columnWidths = [1 \<mapsto> 180, 2 \<mapsto> 100, 3 \<mapsto> 80, 4 \<mapsto> 120, 5 \<mapsto> 300]\<rparr>"

definition put_sheet :: "string \<Rightarrow> string \<Rightarrow> sheet \<Rightarrow> world \<Rightarrow> world" where
  "put_sheet ident name sh w =
     (case files w ident of
        None \<Rightarrow> w
      | Some ss \<Rightarrow> w\<lparr>files := (files w)(ident \<mapsto> ss\<lparr>sheets := (sheets ss)(name \<mapsto> sh)\<rparr>)\<rparr>)"

definition select_store :: "world \<Rightarrow> (string \<times> spreadsheet) completion" where
  "select_store w =
     (let bound = (case activeSpreadsheet w of
                     None \<Rightarrow> Throw null_spreadsheet
                   | Some a \<Rightarrow> (case files w a of
                                None \<Rightarrow> Throw null_spreadsheet
                              | Some ss \<Rightarrow> Return (a, ss)))
      in case scriptProperties w ''SPREADSHEET_ID'' of
           None \<Rightarrow> bound
         | Some i \<Rightarrow>
             if i = [] then bound
             else (case files w i of None \<Rightarrow> Throw cannot_open | Some ss \<Rightarrow> Return (i, ss)))"

definition ensure_logs :: "spreadsheet \<Rightarrow> sheet" where
  "ensure_logs ss = (case sheets ss ''logs'' of None \<Rightarrow> fresh_logs | Some sh \<Rightarrow> sh)"

text \<open>The rows of the sheet \<^verbatim>\<open>logs\<close> of a spreadsheet of the world, when there is one.\<close>

definition log_rows :: "world \<Rightarrow> string \<Rightarrow> (row list) option" where
  "log_rows w ident =
     (case files w ident of
        None \<Rightarrow> None
      | Some ss \<Rightarrow> (case sheets ss ''logs'' of None \<Rightarrow> None | Some sh \<Rightarrow> Some (cells sh)))"

text \<open>The rows of any sheet of any spreadsheet of the world.\<close>

definition sheet_rows :: "world \<Rightarrow> string \<Rightarrow> string \<Rightarrow> (row list) option" where
  "sheet_rows w ident name =
     (case files w ident of
        None \<Rightarrow> None
      | Some ss \<Rightarrow> (case sheets ss name of None \<Rightarrow> None | Some sh \<Rightarrow> Some (cells sh)))"

text \<open>
  Reasoning about a run of service calls: from a world that satisfies \<open>P\<close>, the run
  returns into a world that satisfies \<open>Q\<close> of its value, or throws into a world that
  satisfies \<open>E\<close> of its error.
\<close>

definition ensures ::
  "(world \<Rightarrow> bool) \<Rightarrow> 'a action \<Rightarrow> ('a \<Rightarrow> world \<Rightarrow> bool) \<Rightarrow> (js_error \<Rightarrow> world \<Rightarrow> bool) \<Rightarrow> bool" where
  "ensures P a Q E =
     (\<forall>w. P w \<longrightarrow> (case a w of (Return x, w') \<Rightarrow> Q x w' | (Throw err, w') \<Rightarrow> E err w'))"

text \<open>
  The state of a run that has come to write to the sheet \<^verbatim>\<open>logs\<close> of the spreadsheet
  \<open>ident\<close>, seen from the world \<open>w0\<close> at the start of the request: the script may
  edit the spreadsheet, the sheet holds the rows \<open>rs\<close>, and the rows of every other
  sheet are those of \<open>w0\<close>.
\<close>

definition at_logs :: "world \<Rightarrow> string \<Rightarrow> row list \<Rightarrow> world \<Rightarrow> bool" where
  "at_logs w0 ident rs w =
     (case files w ident of
        None \<Rightarrow> False
      | Some ss \<Rightarrow>
          may_edit ss
          \<and> (case sheets ss ''logs'' of None \<Rightarrow> False | Some sh \<Rightarrow> cells sh = rs)
          \<and> (\<forall>j name. (j, name) \<noteq> (ident, ''logs'')
                \<longrightarrow> sheet_rows w j name = sheet_rows w0 j name))"

text \<open>
  A sheet as a request that failed may leave it: with the rows it had, or, if it was
  not there and is the sheet \<^verbatim>\<open>logs\<close>, created with no row or with the header row
  alone.
\<close>

definition kept_or_fresh :: "world \<Rightarrow> world \<Rightarrow> string \<Rightarrow> string \<Rightarrow> bool" where
  "kept_or_fresh w w' ident name =
     (sheet_rows w' ident name = sheet_rows w ident name
      \<or> (sheet_rows w ident name = None \<and> name = ''logs''
          \<and> (sheet_rows w' ident name = Some [] \<or> sheet_rows w' ident name = Some [headers])))"

section \<open>The client beacon (app.js)\<close>

text \<open>
  The page: local storage, the status element with the sequence of what was written to
  it (latest last), the pending timers (each holds the message its callback captured),
  the URL input, the requests that \<^verbatim>\<open>fetch\<close> was called with, the console.
\<close>

record statusElement =
  textContent :: string
  className :: string

record request =
  url :: string
  http_method :: string
  body :: "(string \<times> string) list"

record browser =
  localStorage :: "string \<rightharpoonup> string"
  status :: statusElement
  status_writes :: "statusElement list"
  timers :: "string list"
  gasUrlInput :: string
  requests :: "request list"
  page_console :: "string list"

text \<open>
  What a handler reads from outside the page while it runs: the clock (one reading; it
  does not advance within a run), the text of \<^verbatim>\<open>Math.random().toString(36)\<close>, the
  path of the location, the user agent.
\<close>

record ambient =
  Date_now :: int
  Math_random_36 :: string
  pathname :: string
  userAgent :: string

definition GAS_URL :: string where
  "GAS_URL = ''gas_url''"

definition USER_ID :: string where
  "USER_ID = ''uid''"

text \<open>\<^verbatim>\<open>getOrCreateUserId()\<close>\<close>

definition getOrCreateUserId :: "ambient \<Rightarrow> browser \<Rightarrow> string \<times> browser" where
  "getOrCreateUserId amb b =
     (let created =
            (let userId = ''usr_'' @ Number_toString (Date_now amb) 36 @ ''_''
                            @ substr (Math_random_36 amb) 2 9
             in (userId, b\<lparr>localStorage := (localStorage b)(USER_ID \<mapsto> userId)\<rparr>))
      in case localStorage b USER_ID of
           None \<Rightarrow> created
         | Some userId \<Rightarrow> if userId = [] then created else (userId, b))"

text \<open>\<^verbatim>\<open>updateStatus(message, isError = false)\<close> and the callback of its timer.\<close>

definition updateStatus :: "string \<Rightarrow> bool \<Rightarrow> browser \<Rightarrow> browser" where
  "updateStatus msg isError b =
     (let el = \<lparr>textContent = msg, className = (if isError then ''error'' else ''success'')\<rparr>
      in b\<lparr>status := el, status_writes := status_writes b @ [el],
           timers := (if \<not> isError then timers b @ [msg] else timers b)\<rparr>)"

definition status_timeout :: "string \<Rightarrow> browser \<Rightarrow> browser" where
  "status_timeout msg b =
     (if textContent (status b) = msg
      then (let el = \<lparr>textContent = [], className = []\<rparr>
            in b\<lparr>status := el, status_writes := status_writes b @ [el]\<rparr>)
      else b)"

text \<open>The payload of \<^verbatim>\<open>sendLogSimple\<close>, typed as its documentation types it.\<close>

record payload =
  event :: string
  variant :: "string option"
  meta :: "(string \<times> json) list option"

text \<open>
  Object spread. An object keeps its array-index keys first, in ascending order, and
  its other keys in the order of their creation; assigning to an existing key keeps its
  place.
\<close>

definition array_index :: "string \<Rightarrow> nat option" where
  "array_index k =
     (if k \<noteq> [] \<and> list_all (is_digit 10) k \<and> (k = ''0'' \<or> hd k \<noteq> CHR ''0'')
         \<and> digits_value 10 k < 4294967295
      then Some (digits_value 10 k) else None)"

fun insert_index :: "nat \<Rightarrow> string \<Rightarrow> json \<Rightarrow> (string \<times> json) list \<Rightarrow> (string \<times> json) list" where
  "insert_index n k v [] = [(k, v)]"
| "insert_index n k v (p # ps) =
     (case array_index (fst p) of
        None \<Rightarrow> (k, v) # p # ps
      | Some m \<Rightarrow> if m < n then p # insert_index n k v ps else (k, v) # p # ps)"

definition set_property :: "(string \<times> json) list \<Rightarrow> string \<Rightarrow> json \<Rightarrow> (string \<times> json) list" where
  "set_property obj k v =
     (if map_of obj k \<noteq> None then map (\<lambda>p. if fst p = k then (k, v) else p) obj
      else (case array_index k of None \<Rightarrow> obj @ [(k, v)] | Some n \<Rightarrow> insert_index n k v obj))"

definition spread :: "(string \<times> json) list \<Rightarrow> (string \<times> json) list option \<Rightarrow> (string \<times> json) list" where
  "spread obj src =
     (case src of None \<Rightarrow> obj | Some ps \<Rightarrow> foldl (\<lambda>acc p. set_property acc (fst p) (snd p)) obj ps)"

text \<open>
  What \<^verbatim>\<open>await fetch(...)\<close> and \<^verbatim>\<open>await response.json()\<close> give: a rejection with
  the network's error, or a response with its status and its body parsed (or the
  error of parsing it).
\<close>

datatype fetch_result =
    Rejected js_error
  | Response nat "json completion"

text \<open>The body of the request: lines 91 to 103.\<close>

definition build_params :: "payload \<Rightarrow> ambient \<Rightarrow> string \<Rightarrow> (string \<times> string) list" where
  "build_params p amb userId =
     (let params = [(''event'', event p)];
          params = (case variant p of
                      None \<Rightarrow> params
                    | Some v \<Rightarrow> if v \<noteq> [] then params @ [(''variant'', v)] else params);
          params = params @ [(''userId'', userId)];
          params = params @ [(''ts'', Number_toString (Date_now amb) 10)];
          meta_obj = spread [(''page'', JStr (pathname amb)), (''ua'', JStr (userAgent amb))] (meta p);
          params = params @ [(''meta'', JSON_stringify (JObj meta_obj))]
      in params)"

text \<open>The \<^verbatim>\<open>catch\<close> of \<^verbatim>\<open>sendLogSimple\<close>.\<close>

definition logging_failed :: "js_error \<Rightarrow> browser \<Rightarrow> browser" where
  "logging_failed err b =
     updateStatus (''Failed: '' @ message err) True
       (b\<lparr>page_console := page_console b @ [''Logging failed: '' @ message err]\<rparr>)"

text \<open>\<^verbatim>\<open>sendLogSimple(payload)\<close>, over the network \<open>fetch\<close> that answers a request.\<close>

definition sendLogSimple :: "(request \<Rightarrow> fetch_result) \<Rightarrow> ambient \<Rightarrow> payload \<Rightarrow> browser \<Rightarrow> browser" where
  "sendLogSimple fetch amb p b =
     (let missing = updateStatus ''Missing Web App URL. Please save a valid URL first.'' True b
      in case localStorage b GAS_URL of
           None \<Rightarrow> missing
         | Some gasUrl \<Rightarrow>
             if gasUrl = [] then missing
             else if \<not> endsWith gasUrl ''/exec'' then updateStatus ''URL must end with /exec'' True b
             else
               (let (userId, b) = getOrCreateUserId amb b;
                    req = \<lparr>url = gasUrl, http_method = ''POST'', body = build_params p amb userId\<rparr>;
                    b = b\<lparr>requests := requests b @ [req]\<rparr>
                in case fetch req of
                     Rejected err \<Rightarrow> logging_failed err b
                   | Response code parsed \<Rightarrow>
                       if \<not> (200 \<le> code \<and> code \<le> 299)
                       then logging_failed (Error (''HTTP '' @ Number_toString (int code) 10)) b
                       else (case cbind parsed (\<lambda>result. getProp result ''ok'') of
                               Throw err \<Rightarrow> logging_failed err b
                             | Return ok \<Rightarrow>
                                 if truthy ok then updateStatus ''Logged'' False b
                                 else updateStatus ''Server error'' True b)))"

text \<open>The click handler of the save button, lines 145 to 158.\<close>

definition saveUrl_click :: "browser \<Rightarrow> browser" where
  "saveUrl_click b =
     (let url = trim (gasUrlInput b)
      in if url = [] then updateStatus ''Please enter a URL'' True b
         else
           (let b = (if \<not> startsWith url ''https://'' \<or> \<not> includes_str url ''google.com''
                     then updateStatus ''Warning: URL may not be valid'' True b else b);
                b = b\<lparr>localStorage := (localStorage b)(GAS_URL \<mapsto> url)\<rparr>
            in updateStatus ''URL saved'' False b))"

text \<open>The other handlers and \<^verbatim>\<open>init()\<close>.\<close>

definition ctaA_click :: "(request \<Rightarrow> fetch_result) \<Rightarrow> ambient \<Rightarrow> browser \<Rightarrow> browser" where
  "ctaA_click fetch amb =
     sendLogSimple fetch amb \<lparr>event = ''cta_click'', variant = Some ''A'', meta = None\<rparr>"

definition ctaB_click :: "(request \<Rightarrow> fetch_result) \<Rightarrow> ambient \<Rightarrow> browser \<Rightarrow> browser" where
  "ctaB_click fetch amb =
     sendLogSimple fetch amb \<lparr>event = ''cta_click'', variant = Some ''B'', meta = None\<rparr>"

definition heartbeat_click :: "(request \<Rightarrow> fetch_result) \<Rightarrow> ambient \<Rightarrow> browser \<Rightarrow> browser" where
  "heartbeat_click fetch amb =
     sendLogSimple fetch amb \<lparr>event = ''heartbeat'', variant = None, meta = None\<rparr>"

definition init :: "ambient \<Rightarrow> browser \<Rightarrow> browser" where
  "init amb b =
     (let b = (case localStorage b GAS_URL of
                 None \<Rightarrow> b
               | Some savedUrl \<Rightarrow> if savedUrl \<noteq> [] then b\<lparr>gasUrlInput := savedUrl\<rparr> else b)
      in snd (getOrCreateUserId amb b))"

text \<open>
  The request as the endpoint receives it: the platform declares the form content type
  of a body of form fields, keeps the raw text, and decodes the fields into
  \<^verbatim>\<open>e.parameter\<close>.
\<close>

definition received :: "string \<Rightarrow> request \<Rightarrow> event_object" where
  "received raw req =
     \<lparr>postData = Some \<lparr>type = ''application/x-www-form-urlencoded'', contents = raw\<rparr>,
      parameter = body req\<rparr>"

section \<open>Concrete inputs\<close>

text \<open>
  A parser that accepts no text (enough for a request whose body is not JSON), a world
  whose script is bound to an editable spreadsheet without a sheet \<^verbatim>\<open>logs\<close>, and
  the heartbeat request of the specification's example.
\<close>

definition reject_all :: "string \<Rightarrow> json completion" where
  "reject_all text = Throw (SyntaxError ''Unexpected token in JSON at position 0'')"

definition empty_book :: spreadsheet where
  "empty_book = \<lparr>sheets = Map.empty, may_edit = True, writes_left = None\<rparr>"

definition bound_world :: world where
  "bound_world = \<lparr>scriptProperties = Map.empty, files = [''book-1'' \<mapsto> empty_book],
                   activeSpreadsheet = Some ''book-1'', console = []\<rparr>"

text \<open>
  The same world, but for a service that carries out ten more writes on the
  spreadsheet: the insertion of a sheet and the nine writes of its headers.
\<close>

definition ten_writes_world :: world where
  "ten_writes_world =
     bound_world\<lparr>files := [''book-1'' \<mapsto> empty_book\<lparr>writes_left := Some 10\<rparr>]\<rparr>"

definition form_post :: "(string \<times> string) list \<Rightarrow> event_object" where
  "form_post ps =
     \<lparr>postData = Some \<lparr>type = ''application/x-www-form-urlencoded'', contents = []\<rparr>,
      parameter = ps\<rparr>"

definition heartbeat_post :: event_object where
  "heartbeat_post =
     form_post [(''event'', ''heartbeat''), (''userId'', ''u1''), (''ts'', ''1700000000000'')]"

definition malformed_json_post :: event_object where
  "malformed_json_post =
     \<lparr>postData = Some \<lparr>type = ''application/json'', contents = ''{event:''\<rparr>, parameter = []\<rparr>"

definition text_plain_post :: event_object where
  "text_plain_post =
     \<lparr>postData = Some \<lparr>type = ''text/plain'', contents = ''hello''\<rparr>, parameter = []\<rparr>"

definition empty_event_post :: event_object where
  "empty_event_post =
     form_post [(''event'', []), (''userId'', ''u1''), (''ts'', ''1700000000000'')]"

definition mixed_ts_post :: event_object where
  "mixed_ts_post = form_post [(''event'', ''heartbeat''), (''userId'', ''u1''), (''ts'', ''12abc'')]"

definition bad_ts_post :: event_object where
  "bad_ts_post = form_post [(''event'', ''heartbeat''), (''userId'', ''u1''), (''ts'', ''abc'')]"

text \<open>
  A page that was never used, a page that has an identifier and an endpoint, the
  surroundings of one run of a handler, and a network that is down.
\<close>

definition fresh_browser :: browser where
  "fresh_browser =
     \<lparr>localStorage = Map.empty, status = \<lparr>textContent = [], className = []\<rparr>,
      status_writes = [], timers = [], gasUrlInput = [], requests = [], page_console = []\<rparr>"

definition configured_browser :: browser where
  "configured_browser =
     fresh_browser\<lparr>localStorage := [''uid'' \<mapsto> ''usr_loyw3v28_4fzyo82mv'',
                                     ''gas_url'' \<mapsto> ''https://example.google.com/exec'']\<rparr>"

definition example_ambient :: ambient where
  "example_ambient =
     \<lparr>Date_now = 1700000000000, Math_random_36 = ''0.4fzyo82mvyr'',
      pathname = ''/index.html'', userAgent = ''Mozilla/5.0''\<rparr>"

definition offline :: "request \<Rightarrow> fetch_result" where
  "offline req = Rejected (TypeError ''Failed to fetch'')"

definition cta_click_A :: payload where
  "cta_click_A = \<lparr>event = ''cta_click'', variant = Some ''A'', meta = None\<rparr>"

definition tagged_click :: payload where
  "tagged_click =
     \<lparr>event = ''cta_click'', variant = Some ''A'',
      meta = Some [(''page'', JStr ''/landing''), (''campaign'', JNum 7)]\<rparr>"

section \<open>Strings and numbers\<close>

text \<open>The string predicates say what their names say.\<close>

lemma startsWith_iff:
  "startsWith s p \<longleftrightarrow> (\<exists>q. s = p @ q)"
  by (induction s p rule: startsWith.induct) auto

lemma endsWith_iff:
  "endsWith s p \<longleftrightarrow> (\<exists>q. s = q @ p)"
proof -
  have "(\<exists>q. rev s = rev p @ q) \<longleftrightarrow> (\<exists>q. s = q @ p)"
    by (metis rev_append rev_rev_ident)
  then show ?thesis
    by (simp add: endsWith_def startsWith_iff)
qed

lemma includes_str_iff:
  "includes_str s p \<longleftrightarrow> (\<exists>a c. s = a @ p @ c)"
proof (induction s)
  case Nil
  then show ?case by auto
next
  case (Cons x xs)
  have "(\<exists>a c. x # xs = a @ p @ c) \<longleftrightarrow> (\<exists>c. x # xs = p @ c) \<or> (\<exists>a c. xs = a @ p @ c)"
    by (auto simp: Cons_eq_append_conv)
  with Cons show ?case
    by (simp add: startsWith_iff)
qed

lemma not_endsWith_Nil:
  "\<not> endsWith [] ''/exec''"
  by (simp add: endsWith_def)

subsection \<open>Decimal text of a number and back\<close>

lemma digit_value_digit_char:
  assumes "d < 10"
  shows "digit_value (digit_char d) = d"
proof -
  from assms have "d = 0 \<or> d = 1 \<or> d = 2 \<or> d = 3 \<or> d = 4 \<or> d = 5 \<or> d = 6 \<or> d = 7 \<or> d = 8 \<or> d = 9"
    by arith
  then show ?thesis
    by (elim disjE) (simp_all add: digit_char_def digit_value_def)
qed

lemma digits_value_snoc:
  "digits_value radix (Z @ [c]) = digits_value radix Z * radix + digit_value c"
  by (simp add: digits_value_def)

lemma digits_of_not_Nil:
  "digits_of radix n \<noteq> []"
  by (subst digits_of.simps) simp

lemma decimal_digits:
  "list_all (is_digit 10) (digits_of 10 n)"
proof (induction n rule: less_induct)
  case (less n)
  have last: "is_digit 10 (digit_char (n mod 10))"
    by (simp add: is_digit_def digit_value_digit_char)
  show ?case
  proof (cases "n < 10")
    case True
    with last show ?thesis
      by (subst digits_of.simps) simp
  next
    case False
    then have "n div 10 < n"
      by simp
    from less [OF this] False last show ?thesis
      by (subst digits_of.simps) simp
  qed
qed

lemma digits_value_digits_of:
  "digits_value 10 (digits_of 10 n) = n"
proof (induction n rule: less_induct)
  case (less n)
  show ?case
  proof (cases "n < 10")
    case True
    then show ?thesis
      by (subst digits_of.simps) (simp add: digits_value_def digit_value_digit_char)
  next
    case False
    then have "n div 10 < n"
      by simp
    from less [OF this] False show ?thesis
      by (subst digits_of.simps) (simp add: digits_value_snoc digit_value_digit_char)
  qed
qed

lemma is_digit_10_plain:
  assumes "is_digit 10 c"
  shows "\<not> isWhiteSpace c \<and> c \<noteq> CHR ''+'' \<and> c \<noteq> CHR ''-'' \<and> c \<noteq> CHR ''x'' \<and> c \<noteq> CHR ''X''"
  using assms
  by (auto simp: is_digit_def digit_value_def isWhiteSpace_def)

lemma parseInt_unsigned:
  assumes "dropWhile isWhiteSpace S = S"
    and "\<not> startsWith S ''-''" and "\<not> startsWith S ''+''"
    and "\<not> startsWith S ''0x''" and "\<not> startsWith S ''0X''"
  shows "parseInt S =
     (if takeWhile (is_digit 10) S = [] then None
      else Some (int (digits_value 10 (takeWhile (is_digit 10) S))))"
  unfolding parseInt_def Let_def
  by (simp add: assms)

lemma parseInt_minus:
  assumes "\<not> startsWith S ''0x''" and "\<not> startsWith S ''0X''"
  shows "parseInt (CHR ''-'' # S) =
     (if takeWhile (is_digit 10) S = [] then None
      else Some (- int (digits_value 10 (takeWhile (is_digit 10) S))))"
  unfolding parseInt_def Let_def
  by (simp add: assms isWhiteSpace_def)

lemma parseInt_decimal:
  assumes "ds \<noteq> []" and "list_all (is_digit 10) ds"
  shows "parseInt ds = Some (int (digits_value 10 ds))"
    and "parseInt (CHR ''-'' # ds) = Some (- int (digits_value 10 ds))"
proof -
  from assms obtain c cs where ds: "ds = c # cs" and c: "is_digit 10 c" and cs: "list_all (is_digit 10) cs"
    by (cases ds) auto
  have x: "\<not> is_digit 10 CHR ''x''" "\<not> is_digit 10 CHR ''X''"
    by (simp_all add: is_digit_def digit_value_def)
  have hex: "\<not> startsWith ds ''0x''" "\<not> startsWith ds ''0X''"
    using cs x by (cases cs; auto simp: ds)+
  have all: "takeWhile (is_digit 10) ds = ds"
    using assms(2) by (simp add: list_all_iff)
  have plain: "dropWhile isWhiteSpace ds = ds" "\<not> startsWith ds ''-''" "\<not> startsWith ds ''+''"
    using is_digit_10_plain [OF c] by (simp_all add: ds)
  show "parseInt ds = Some (int (digits_value 10 ds))"
    by (simp add: parseInt_unsigned [OF plain hex] all assms(1))
  show "parseInt (CHR ''-'' # ds) = Some (- int (digits_value 10 ds))"
    by (simp add: parseInt_minus [OF hex] all assms(1))
qed

lemma parseInt_Number_toString:
  "parseInt (Number_toString n 10) = Some n"
  by (simp add: Number_toString_def parseInt_decimal digits_of_not_Nil decimal_digits
      digits_value_digits_of)

lemma Number_toString_not_Nil:
  "Number_toString n radix \<noteq> []"
  by (simp add: Number_toString_def digits_of_not_Nil)

subsection \<open>Values at the inputs of the examples\<close>

lemma replicate_numeral:
  "replicate (numeral k) c = replicate (pred_numeral k) c @ [c]"
  by (simp add: numeral_eq_Suc replicate_append_same)

lemma parseInt_1700000000000:
  "parseInt ''1700000000000'' = Some 1700000000000"
  unfolding parseInt_def Let_def
  by (simp add: digits_value_def is_digit_def digit_value_def isWhiteSpace_def)

lemma civil_from_days_19675:
  "civil_from_days 19675 = (2023, 11, 14)"
  unfolding civil_from_days_def Let_def by simp

lemma pad_values:
  "pad 4 2023 = ''2023''" "pad 2 11 = ''11''" "pad 2 14 = ''14''" "pad 2 22 = ''22''"
  "pad 2 13 = ''13''" "pad 2 20 = ''20''" "pad 3 0 = ''000''"
  unfolding pad_def Let_def
  by (simp_all add: digits_of.simps digit_char_def replicate_numeral)

lemma toISOString_1700000000000:
  "toISOString (new_Date (parseInt ''1700000000000'')) = Return ''2023-11-14T22:13:20.000Z''"
  unfolding parseInt_1700000000000 toISOString_def new_Date_def TimeClip_def Let_def
  by (simp add: civil_from_days_19675 year_string_def pad_values)

lemma toISOString_epoch:
  "toISOString (Some 0) = Return ''1970-01-01T00:00:00.000Z''"
  unfolding toISOString_def civil_from_days_def year_string_def pad_def Let_def
  by (simp add: digits_of.simps digit_char_def replicate_numeral)

lemma toISOString_leap_day:
  "toISOString (Some 1709251199999) = Return ''2024-02-29T23:59:59.999Z''"
  unfolding toISOString_def civil_from_days_def year_string_def pad_def Let_def
  by (simp add: digits_of.simps digit_char_def replicate_numeral)

lemma toISOString_before_epoch:
  "toISOString (Some (- 1)) = Return ''1969-12-31T23:59:59.999Z''"
  unfolding toISOString_def civil_from_days_def year_string_def pad_def Let_def
  by (simp add: digits_of.simps digit_char_def replicate_numeral)

lemma toISOString_last_date:
  "toISOString (new_Date (Some 8640000000000000)) = Return ''+275760-09-13T00:00:00.000Z''"
  unfolding toISOString_def new_Date_def TimeClip_def civil_from_days_def year_string_def pad_def Let_def
  by (simp add: digits_of.simps digit_char_def replicate_numeral)

lemma toISOString_past_last_date:
  "toISOString (new_Date (Some 8640000000000001)) = Throw (RangeError ''Invalid time value'')"
  by (simp add: toISOString_def new_Date_def TimeClip_def)

lemma parseInt_abc:
  "parseInt ''abc'' = None"
  unfolding parseInt_def Let_def
  by (simp add: is_digit_def digit_value_def isWhiteSpace_def)

lemma JSON_stringify_ok_true:
  "JSON_stringify ok_true = ''{'' @ [CHR 0x22] @ ''ok'' @ [CHR 0x22] @ '':true}''"
  by (simp add: ok_true_def QuoteJSONString_def escape_char_def)

lemma JSON_stringify_ok_false:
  "JSON_stringify (ok_false msg) =
     ''{'' @ [CHR 0x22] @ ''ok'' @ [CHR 0x22] @ '':false,'' @ [CHR 0x22] @ ''error'' @ [CHR 0x22]
       @ '':'' @ QuoteJSONString msg @ ''}''"
  by (simp add: ok_false_def QuoteJSONString_def escape_char_def)

lemma Number_toString_1700000000000:
  "Number_toString 1700000000000 10 = ''1700000000000''"
  unfolding Number_toString_def
  by (simp add: digits_of.simps digit_char_def)

lemma Number_toString_36_1700000000000:
  "Number_toString 1700000000000 36 = ''loyw3v28''"
  unfolding Number_toString_def
  by (simp add: digits_of.simps digit_char_def)

lemma trim_no_break_space:
  "trim [CHR 0xA0] = []" "trim (CHR 0xA0 # ''https://a/exec'' @ [CHR 0xA0]) = ''https://a/exec''"
  by (simp_all add: trim_def isWhiteSpace_def)

lemma parseInt_no_break_space:
  "parseInt (CHR 0xA0 # ''12'') = Some 12"
  unfolding parseInt_def Let_def
  by (simp add: digits_value_def is_digit_def digit_value_def isWhiteSpace_def)

lemma parseInt_12abc:
  "parseInt ''12abc'' = Some 12"
  unfolding parseInt_def Let_def
  by (simp add: digits_value_def is_digit_def digit_value_def isWhiteSpace_def)

lemma toISOString_12:
  "toISOString (new_Date (Some 12)) = Return ''1970-01-01T00:00:00.012Z''"
  unfolding toISOString_def new_Date_def TimeClip_def civil_from_days_def year_string_def pad_def Let_def
  by (simp add: digits_of.simps digit_char_def replicate_numeral)

section \<open>Object spread\<close>

lemma map_of_overwrite:
  "map_of (map (\<lambda>p. if fst p = k then (k, v) else p) obj) x =
     (if x = k then (if map_of obj k = None then None else Some v) else map_of obj x)"
  by (induction obj) auto

lemma map_of_insert_index:
  assumes "map_of obj k = None"
  shows "map_of (insert_index n k v obj) = (map_of obj)(k \<mapsto> v)"
  using assms
proof (induction obj)
  case Nil
  then show ?case by simp
next
  case (Cons p ps)
  then have "fst p \<noteq> k" and "map_of ps k = None"
    by (cases p; auto split: if_splits)+
  with Cons.IH show ?case
    by (cases p) (auto simp: fun_eq_iff split: option.splits)
qed

lemma map_of_set_property:
  "map_of (set_property obj k v) = (map_of obj)(k \<mapsto> v)"
proof (cases "map_of obj k")
  case None
  then show ?thesis
    by (auto simp: set_property_def map_of_insert_index fun_eq_iff map_add_def
        split: option.splits)
next
  case (Some old)
  then show ?thesis
    by (auto simp: set_property_def map_of_overwrite fun_eq_iff)
qed

lemma map_of_foldl_set_property:
  "map_of (foldl (\<lambda>acc p. set_property acc (fst p) (snd p)) obj ps) x =
     (case map_of (rev ps) x of None \<Rightarrow> map_of obj x | Some v \<Rightarrow> Some v)"
proof (induction ps arbitrary: obj)
  case Nil
  then show ?case by simp
next
  case (Cons p ps)
  show ?case
    by (cases p) (simp add: Cons map_of_set_property map_add_def split: option.splits)
qed

lemma map_of_rev_distinct:
  assumes "distinct (map fst ps)"
  shows "map_of (rev ps) = map_of ps"
  using assms
proof (induction ps)
  case Nil
  then show ?case by simp
next
  case (Cons p ps)
  then have "map_of ps (fst p) = None"
    by (simp add: map_of_eq_None_iff)
  with Cons show ?case
    by (cases p) (auto simp: fun_eq_iff map_add_def split: option.splits)
qed

lemma map_of_spread:
  assumes "case src of None \<Rightarrow> True | Some ps \<Rightarrow> distinct (map fst ps)"
  shows "map_of (spread obj src) k =
     (case src of
        None \<Rightarrow> map_of obj k
      | Some ps \<Rightarrow> (case map_of ps k of None \<Rightarrow> map_of obj k | Some v \<Rightarrow> Some v))"
  using assms
  by (auto simp: spread_def map_of_foldl_set_property map_of_rev_distinct
      split: option.splits)

section \<open>The store: the service calls against their description\<close>

subsection \<open>An editable spreadsheet\<close>

lemma spend_editable:
  assumes "editable ss"
  shows "spend ss = Some ss"
  using assms by (simp add: editable_def spend_def)

lemma editable_sheets_update:
  "editable (ss\<lparr>sheets := m\<rparr>) = editable ss"
  by (simp add: editable_def)

lemma modify_sheet_ok:
  assumes "files w i = Some ss" "editable ss" "sheets ss n = Some sh"
  shows "modify_sheet (i, n) f w = (Return (), put_sheet i n (f sh) w)"
  using assms by (simp add: modify_sheet_def put_sheet_def spend_editable) (simp add: editable_def)

lemma put_sheet_files:
  assumes "files w i = Some ss"
  shows "files (put_sheet i n sh w) i = Some (ss\<lparr>sheets := (sheets ss)(n \<mapsto> sh)\<rparr>)"
  using assms by (simp add: put_sheet_def)

lemma put_sheet_put_sheet:
  assumes "files w i = Some ss"
  shows "put_sheet i n sh' (put_sheet i n sh w) = put_sheet i n sh' w"
  using assms by (simp add: put_sheet_def)

lemma initSheetHeaders_new:
  assumes "files w i = Some ss" "editable ss" "sheets ss n = Some new_sheet"
  shows "initSheetHeaders (i, n) w = (Return (), put_sheet i n fresh_logs w)"
  using assms
  by (simp add: initSheetHeaders_def andThen_def setValues_row1_def setFrozenRows_def
      setBackground_row1_def setFontWeight_row1_def setColumnWidth_def modify_sheet_ok
      put_sheet_files put_sheet_put_sheet editable_sheets_update new_sheet_def fresh_logs_def)

lemma logs_of_existing:
  assumes "files w i = Some ss" "sheets ss ''logs'' = Some sh"
  shows "logs_of i w = (Return (i, ''logs''), w)"
  using assms by (simp add: logs_of_def andThen_def getSheetByName_def domI)

lemma insertSheet_ok:
  assumes "files w i = Some ss" "sheets ss n = None" "editable ss"
  shows "insertSheet i n w = (Return (i, n), put_sheet i n new_sheet w)"
  using assms by (simp add: insertSheet_def put_sheet_def domIff spend_editable) (simp add: editable_def)

lemma logs_of_created:
  assumes "files w i = Some ss" "sheets ss ''logs'' = None" "editable ss"
  shows "logs_of i w = (Return (i, ''logs''), put_sheet i ''logs'' fresh_logs w)"
proof -
  let ?w1 = "put_sheet i ''logs'' new_sheet w"
  have f1: "files ?w1 i = Some (ss\<lparr>sheets := (sheets ss)(''logs'' \<mapsto> new_sheet)\<rparr>)"
    using assms(1) by (rule put_sheet_files)
  have "initSheetHeaders (i, ''logs'') ?w1 = (Return (), put_sheet i ''logs'' fresh_logs ?w1)"
    by (rule initSheetHeaders_new [OF f1]) (simp_all add: assms editable_sheets_update)
  then show ?thesis
    using assms
    by (simp add: logs_of_def andThen_def getSheetByName_def domIff insertSheet_ok put_sheet_put_sheet)
qed

lemma appendRow_logs_editable:
  assumes "files w i = Some ss" and "editable ss"
  shows "andThen (logs_of i) (\<lambda>sheet. appendRow sheet r) w =
     (Return (), put_sheet i ''logs'' ((ensure_logs ss)\<lparr>cells := cells (ensure_logs ss) @ [r]\<rparr>) w)"
proof (cases "sheets ss ''logs''")
  case None
  have f1: "files (put_sheet i ''logs'' fresh_logs w) i = Some (ss\<lparr>sheets := (sheets ss)(''logs'' \<mapsto> fresh_logs)\<rparr>)"
    using assms(1) by (rule put_sheet_files)
  show ?thesis
    using None assms
    by (simp add: andThen_def logs_of_created appendRow_def modify_sheet_ok [OF f1]
        put_sheet_put_sheet ensure_logs_def editable_sheets_update)
next
  case (Some sh)
  then show ?thesis
    using assms
    by (simp add: andThen_def logs_of_existing appendRow_def modify_sheet_ok [OF assms(1)]
        ensure_logs_def)
qed

subsection \<open>The selection of the spreadsheet\<close>

lemma andThen_assoc:
  "andThen (andThen f g) h = andThen f (\<lambda>x. andThen (g x) h)"
  by (rule ext) (simp add: andThen_def split: prod.splits completion.splits)

lemma andThen_getProperty:
  "andThen (getProperty k) g w = g (scriptProperties w k) w"
  by (simp add: andThen_def getProperty_def)

lemma andThen_openById:
  "andThen (openById i) g w =
     (case files w i of None \<Rightarrow> (Throw cannot_open, w) | Some ss \<Rightarrow> g i w)"
  by (simp add: andThen_def openById_def split: option.splits)

lemma andThen_getActiveSpreadsheet:
  "andThen getActiveSpreadsheet g w =
     (case activeSpreadsheet w of
        None \<Rightarrow> g None w
      | Some a \<Rightarrow> (case files w a of None \<Rightarrow> g None w | Some ss \<Rightarrow> g (Some a) w))"
  by (simp add: andThen_def getActiveSpreadsheet_def domIff split: option.splits)

lemma andThen_Throw:
  "andThen (\<lambda>w. (Throw err, w)) g w = (Throw err, w)"
  by (simp add: andThen_def)

lemma getOrCreateLogSheet_selects:
  "andThen getOrCreateLogSheet (\<lambda>sheet. appendRow sheet r) w =
     (case select_store w of
        Throw err \<Rightarrow> (Throw err, w)
      | Return (i, ss) \<Rightarrow> andThen (logs_of i) (\<lambda>sheet. appendRow sheet r) w)"
proof -
  have bound: "andThen default_logs (\<lambda>sheet. appendRow sheet r) w =
    (case activeSpreadsheet w of
       None \<Rightarrow> (Throw null_spreadsheet, w)
     | Some a \<Rightarrow> (case files w a of None \<Rightarrow> (Throw null_spreadsheet, w)
         | Some ss \<Rightarrow> andThen (logs_of a) (\<lambda>sheet. appendRow sheet r) w))"
    by (simp add: default_logs_def andThen_assoc andThen_getActiveSpreadsheet andThen_Throw
        split: option.splits)
  have named: "andThen (andThen (openById i) logs_of) (\<lambda>sheet. appendRow sheet r) w =
    (case files w i of None \<Rightarrow> (Throw cannot_open, w)
     | Some ss \<Rightarrow> andThen (logs_of i) (\<lambda>sheet. appendRow sheet r) w)" for i
    by (simp add: andThen_assoc andThen_openById)
  show ?thesis
    by (simp add: getOrCreateLogSheet_def andThen_assoc andThen_getProperty)
       (simp add: andThen_assoc [symmetric] bound named select_store_def
          split: option.splits)
qed

lemma select_store_files:
  assumes "select_store w = Return (i, ss)"
  shows "files w i = Some ss"
  using assms
  by (auto simp: select_store_def Let_def split: option.splits if_splits)

lemma select_store_Throw:
  assumes "select_store w = Throw err"
  shows "err = null_spreadsheet \<or> err = cannot_open"
  using assms
  by (auto simp: select_store_def Let_def split: option.splits if_splits)

lemma store_accepts:
  assumes "select_store w = Return (i, ss)" and "editable ss"
  shows "andThen getOrCreateLogSheet (\<lambda>sheet. appendRow sheet r) w =
     (Return (), put_sheet i ''logs'' ((ensure_logs ss)\<lparr>cells := cells (ensure_logs ss) @ [r]\<rparr>) w)"
  by (simp add: getOrCreateLogSheet_selects assms
      appendRow_logs_editable [OF select_store_files [OF assms(1)] assms(2)])

subsection \<open>Any spreadsheet: what a failing write leaves behind\<close>

lemma ensures_andThen:
  assumes "ensures P f R E" and "\<And>x. ensures (R x) (g x) Q E"
  shows "ensures P (andThen f g) Q E"
  unfolding ensures_def
proof (intro allI impI)
  fix w
  assume "P w"
  show "case andThen f g w of (Return x, w') \<Rightarrow> Q x w' | (Throw err, w') \<Rightarrow> E err w'"
  proof (cases "f w")
    case (Pair c w1)
    show ?thesis
    proof (cases c)
      case (Return x)
      with Pair \<open>P w\<close> assms(1) have "R x w1"
        by (auto simp: ensures_def)
      with assms(2) [of x] show ?thesis
        by (simp add: ensures_def andThen_def Pair Return)
    next
      case (Throw err)
      with Pair \<open>P w\<close> assms(1) show ?thesis
        by (auto simp: ensures_def andThen_def)
    qed
  qed
qed

lemma ensures_Return:
  assumes "ensures P a Q E" and "P w" and "a w = (Return x, w')"
  shows "Q x w'"
  using assms by (auto simp: ensures_def)

lemma ensures_Throw:
  assumes "ensures P a Q E" and "P w" and "a w = (Throw err, w')"
  shows "E err w'"
  using assms by (auto simp: ensures_def)

lemma ensures_weaken:
  assumes "ensures P a Q E"
    and "\<And>w. P' w \<Longrightarrow> P w" and "\<And>x w. Q x w \<Longrightarrow> Q' x w" and "\<And>err w. E err w \<Longrightarrow> E' err w"
  shows "ensures P' a Q' E'"
  using assms
  unfolding ensures_def
  by (auto split: prod.splits completion.splits) blast+

lemma spend_keeps:
  assumes "spend ss = Some ss'"
  shows "may_edit ss' = may_edit ss \<and> sheets ss' = sheets ss"
  using assms by (auto simp: spend_def split: option.splits nat.splits)

lemma sheet_rows_other:
  assumes "files w i = Some ss" and "sheets ss' = sheets ss" and "(j, name) \<noteq> (i, n)"
  shows "sheet_rows (w\<lparr>files := (files w)(i \<mapsto> ss'\<lparr>sheets := (sheets ss')(n \<mapsto> sh)\<rparr>)\<rparr>) j name
     = sheet_rows w j name"
  using assms by (auto simp: sheet_rows_def)

lemma ensures_modify_logs:
  assumes "\<And>sh. cells (f sh) = g (cells sh)"
  shows "ensures (at_logs w0 i rs) (modify_sheet (i, ''logs'') f)
           (\<lambda>u. at_logs w0 i (g rs)) (\<lambda>err w. err = service_failed \<and> at_logs w0 i rs w)"
  unfolding ensures_def
proof (intro allI impI)
  fix w
  assume at: "at_logs w0 i rs w"
  then obtain ss sh where ss: "files w i = Some ss" "may_edit ss" "sheets ss ''logs'' = Some sh"
    "cells sh = rs"
    and others: "\<And>j name. (j, name) \<noteq> (i, ''logs'') \<Longrightarrow> sheet_rows w j name = sheet_rows w0 j name"
    by (auto simp: at_logs_def split: option.splits)
  show "case modify_sheet (i, ''logs'') f w of
      (Return u, w') \<Rightarrow> at_logs w0 i (g rs) w'
    | (Throw err, w') \<Rightarrow> err = service_failed \<and> at_logs w0 i rs w'"
  proof (cases "spend ss")
    case None
    with ss at show ?thesis
      by (simp add: modify_sheet_def)
  next
    case (Some ss')
    note keeps = spend_keeps [OF Some]
    let ?w' = "w\<lparr>files := (files w)(i \<mapsto> ss'\<lparr>sheets := (sheets ss')(''logs'' \<mapsto> f sh)\<rparr>)\<rparr>"
    have "modify_sheet (i, ''logs'') f w = (Return (), ?w')"
      using ss Some by (simp add: modify_sheet_def)
    moreover have "at_logs w0 i (g rs) ?w'"
      unfolding at_logs_def
      using ss keeps assms others sheet_rows_other [OF ss(1), of ss' _ _ "''logs''" "f sh"]
      by simp
    ultimately show ?thesis
      by simp
  qed
qed

lemma ensures_header_write:
  assumes "\<And>sh. cells (f sh) = g (cells sh)"
    and "rs = [] \<or> rs = [headers]" and "g rs = [headers]"
  shows "ensures (at_logs w0 i rs) (modify_sheet (i, ''logs'') f)
           (\<lambda>u. at_logs w0 i [headers])
           (\<lambda>err w. err = service_failed \<and> (at_logs w0 i [] w \<or> at_logs w0 i [headers] w))"
proof (rule ensures_weaken)
  show "ensures (at_logs w0 i rs) (modify_sheet (i, ''logs'') f)
           (\<lambda>u. at_logs w0 i (g rs)) (\<lambda>err w. err = service_failed \<and> at_logs w0 i rs w)"
    using assms(1) by (rule ensures_modify_logs)
qed (use assms(2,3) in auto)

lemma ensures_setValues_headers:
  "ensures (at_logs w0 i []) (setValues_row1 (i, ''logs'') headers)
     (\<lambda>u. at_logs w0 i [headers])
     (\<lambda>err w. err = service_failed \<and> (at_logs w0 i [] w \<or> at_logs w0 i [headers] w))"
  unfolding setValues_row1_def
  by (rule ensures_header_write [where g = "\<lambda>rs. case rs of [] \<Rightarrow> [headers]
        | r # rs \<Rightarrow> (headers @ drop (length headers) r) # rs"]) simp_all

lemma ensures_formatting:
  "ensures (at_logs w0 i [headers]) (setFrozenRows (i, ''logs'') n)
     (\<lambda>u. at_logs w0 i [headers])
     (\<lambda>err w. err = service_failed \<and> (at_logs w0 i [] w \<or> at_logs w0 i [headers] w))"
  "ensures (at_logs w0 i [headers]) (setBackground_row1 (i, ''logs'') colour)
     (\<lambda>u. at_logs w0 i [headers])
     (\<lambda>err w. err = service_failed \<and> (at_logs w0 i [] w \<or> at_logs w0 i [headers] w))"
  "ensures (at_logs w0 i [headers]) (setFontWeight_row1 (i, ''logs'') weight)
     (\<lambda>u. at_logs w0 i [headers])
     (\<lambda>err w. err = service_failed \<and> (at_logs w0 i [] w \<or> at_logs w0 i [headers] w))"
  "ensures (at_logs w0 i [headers]) (setColumnWidth (i, ''logs'') col width)
     (\<lambda>u. at_logs w0 i [headers])
     (\<lambda>err w. err = service_failed \<and> (at_logs w0 i [] w \<or> at_logs w0 i [headers] w))"
  unfolding setFrozenRows_def setBackground_row1_def setFontWeight_row1_def setColumnWidth_def
  by (rule ensures_header_write [where g = "\<lambda>rs. rs"]; simp)+

lemma ensures_initSheetHeaders:
  "ensures (at_logs w0 i []) (initSheetHeaders (i, ''logs''))
     (\<lambda>u. at_logs w0 i [headers])
     (\<lambda>err w. err = service_failed \<and> (at_logs w0 i [] w \<or> at_logs w0 i [headers] w))"
  unfolding initSheetHeaders_def
  by (intro ensures_andThen [OF ensures_setValues_headers]
        ensures_andThen [OF ensures_formatting(1)] ensures_andThen [OF ensures_formatting(2)]
        ensures_andThen [OF ensures_formatting(3)] ensures_andThen [OF ensures_formatting(4)]
        ensures_formatting(4))

lemma ensures_appendRow:
  "ensures (at_logs w0 i rs) (appendRow (i, ''logs'') r)
     (\<lambda>u. at_logs w0 i (rs @ [r])) (\<lambda>err w. err = service_failed \<and> at_logs w0 i rs w)"
  unfolding appendRow_def
  by (rule ensures_modify_logs [where g = "\<lambda>rs. rs @ [r]"]) simp

lemma at_logs_rows:
  assumes "at_logs w0 i rs w"
  shows "sheet_rows w i ''logs'' = Some rs"
  using assms by (auto simp: at_logs_def sheet_rows_def split: option.splits)

lemma at_logs_others:
  assumes "at_logs w0 i rs w" and "(j, name) \<noteq> (i, ''logs'')"
  shows "sheet_rows w j name = sheet_rows w0 j name"
  using assms by (auto simp: at_logs_def split: option.splits)

lemma at_logs_start:
  assumes "files w i = Some ss" and "may_edit ss" and "sheets ss ''logs'' = Some sh"
  shows "at_logs w i (cells sh) w"
  using assms by (simp add: at_logs_def)

lemma at_logs_kept:
  assumes "at_logs w i rs w'" and "sheet_rows w i ''logs'' = Some rs"
  shows "kept_or_fresh w w' j name"
  using at_logs_rows [OF assms(1)] at_logs_others [OF assms(1), of j name] assms(2)
  by (cases "(j, name) = (i, ''logs'')") (auto simp: kept_or_fresh_def)

lemma at_logs_fresh:
  assumes "at_logs w i rs w'" and "sheet_rows w i ''logs'' = None" and "rs = [] \<or> rs = [headers]"
  shows "kept_or_fresh w w' j name"
  using at_logs_rows [OF assms(1)] at_logs_others [OF assms(1), of j name] assms(2,3)
  by (cases "(j, name) = (i, ''logs'')") (auto simp: kept_or_fresh_def)

lemma kept_or_fresh_refl:
  "kept_or_fresh w w j name"
  by (simp add: kept_or_fresh_def)

lemma andThen_return:
  "andThen (\<lambda>w. (Return x, w)) g = g x"
  by (rule ext) (simp add: andThen_def)

lemma logs_of_absent:
  assumes "files w i = Some ss" and "sheets ss ''logs'' = None"
  shows "andThen (logs_of i) k w =
     andThen (insertSheet i ''logs'') (\<lambda>sh. andThen (initSheetHeaders sh) (\<lambda>u. k sh)) w"
proof -
  have "andThen (getSheetByName i ''logs'') g w = g None w" for g :: "sheet_handle option \<Rightarrow> 'a action"
    using assms by (simp add: andThen_def getSheetByName_def domIff)
  then show ?thesis
    by (simp add: logs_of_def andThen_assoc andThen_return)
qed

lemma insertSheet_logs:
  assumes "files w i = Some ss" and "sheets ss ''logs'' = None"
  shows "case insertSheet i ''logs'' w of
      (Return h, w') \<Rightarrow> h = (i, ''logs'') \<and> at_logs w i [] w'
    | (Throw err, w') \<Rightarrow> (err = no_permission \<or> err = service_failed) \<and> w' = w"
proof (cases "may_edit ss")
  case False
  with assms show ?thesis
    by (simp add: insertSheet_def)
next
  case True
  show ?thesis
  proof (cases "spend ss")
    case None
    with True assms show ?thesis
      by (simp add: insertSheet_def domIff)
  next
    case (Some ss')
    note keeps = spend_keeps [OF Some]
    let ?w' = "w\<lparr>files := (files w)(i \<mapsto> ss'\<lparr>sheets := (sheets ss')(''logs'' \<mapsto> new_sheet)\<rparr>)\<rparr>"
    have "insertSheet i ''logs'' w = (Return (i, ''logs''), ?w')"
      using True assms Some by (simp add: insertSheet_def domIff)
    moreover have "at_logs w i [] ?w'"
      unfolding at_logs_def
      using True keeps sheet_rows_other [OF assms(1), of ss' _ _ "''logs''" new_sheet]
      by (simp add: new_sheet_def)
    ultimately show ?thesis
      by simp
  qed
qed

lemma ensures_headers_then_append:
  "ensures (at_logs w0 i [])
     (andThen (initSheetHeaders (i, ''logs'')) (\<lambda>u. appendRow (i, ''logs'') r))
     (\<lambda>u. at_logs w0 i [headers, r])
     (\<lambda>err w. err = service_failed \<and> (at_logs w0 i [] w \<or> at_logs w0 i [headers] w))"
proof (rule ensures_andThen [OF ensures_initSheetHeaders])
  show "ensures (at_logs w0 i [headers]) (appendRow (i, ''logs'') r)
     (\<lambda>u. at_logs w0 i [headers, r])
     (\<lambda>err w. err = service_failed \<and> (at_logs w0 i [] w \<or> at_logs w0 i [headers] w))" for x :: unit
    by (rule ensures_weaken [OF ensures_appendRow [of w0 i "[headers]" r]]) auto
qed

text \<open>
  The sheet \<^verbatim>\<open>logs\<close> and the append, on any spreadsheet: a return has appended the row
  to the ensured sheet and kept every other sheet; a throw is a refusal or a failure
  of the service, and has kept every sheet or left a fresh \<^verbatim>\<open>logs\<close>.
\<close>

lemma logs_then_append:
  assumes "files w i = Some ss"
  shows "case andThen (logs_of i) (\<lambda>sheet. appendRow sheet r) w of
      (Return u, w') \<Rightarrow>
        at_logs w i ((case sheet_rows w i ''logs'' of None \<Rightarrow> [headers] | Some rs \<Rightarrow> rs) @ [r]) w'
    | (Throw err, w') \<Rightarrow>
        (err = no_permission \<or> err = service_failed) \<and> (\<forall>j name. kept_or_fresh w w' j name)"
proof (cases "sheets ss ''logs''")
  case (Some sh)
  have rows: "sheet_rows w i ''logs'' = Some (cells sh)"
    using assms Some by (simp add: sheet_rows_def)
  have run: "andThen (logs_of i) (\<lambda>sheet. appendRow sheet r) w = appendRow (i, ''logs'') r w"
    using assms Some by (simp add: andThen_def logs_of_existing)
  show ?thesis
  proof (cases "may_edit ss")
    case False
    with assms Some have "appendRow (i, ''logs'') r w = (Throw no_permission, w)"
      by (simp add: appendRow_def modify_sheet_def)
    then show ?thesis
      unfolding run by (auto simp: kept_or_fresh_refl)
  next
    case True
    have "at_logs w i (cells sh) w"
      using assms True Some by (rule at_logs_start)
    then show ?thesis
      unfolding run rows
      using ensures_Return [OF ensures_appendRow] ensures_Throw [OF ensures_appendRow]
        at_logs_kept [OF _ rows]
      by (cases "appendRow (i, ''logs'') r w"; cases "fst (appendRow (i, ''logs'') r w)")
         (simp; blast)+
  qed
next
  case None
  have rows: "sheet_rows w i ''logs'' = None"
    using assms None by (simp add: sheet_rows_def)
  have run: "andThen (logs_of i) (\<lambda>sheet. appendRow sheet r) w =
      andThen (insertSheet i ''logs'')
        (\<lambda>sh. andThen (initSheetHeaders sh) (\<lambda>u. appendRow sh r)) w"
    using assms None by (rule logs_of_absent)
  show ?thesis
  proof (cases "insertSheet i ''logs'' w")
    case (Pair c w1)
    show ?thesis
    proof (cases c)
      case (Throw err)
      with Pair insertSheet_logs [OF assms None] show ?thesis
        unfolding run by (auto simp: andThen_def kept_or_fresh_refl)
    next
      case (Return h)
      with Pair insertSheet_logs [OF assms None]
      have h: "h = (i, ''logs'')" and at: "at_logs w i [] w1"
        by simp_all
      have step: "andThen (insertSheet i ''logs'')
          (\<lambda>sh. andThen (initSheetHeaders sh) (\<lambda>u. appendRow sh r)) w =
          andThen (initSheetHeaders (i, ''logs'')) (\<lambda>u. appendRow (i, ''logs'') r) w1"
        by (simp add: andThen_def [of "insertSheet i ''logs''"] Pair Return h)
      let ?rest = "andThen (initSheetHeaders (i, ''logs'')) (\<lambda>u. appendRow (i, ''logs'') r)"
      show ?thesis
        unfolding run step rows
        using ensures_Return [OF ensures_headers_then_append at]
          ensures_Throw [OF ensures_headers_then_append at] at_logs_fresh [OF _ rows]
        by (cases "?rest w1"; cases "fst (?rest w1)") (simp; blast)+
    qed
  qed
qed

lemma store_outcome:
  "case andThen getOrCreateLogSheet (\<lambda>sheet. appendRow sheet r) w of
      (Return u, w') \<Rightarrow>
        (\<exists>i ss. select_store w = Return (i, ss)
           \<and> at_logs w i ((case sheet_rows w i ''logs'' of None \<Rightarrow> [headers] | Some rs \<Rightarrow> rs) @ [r]) w')
    | (Throw err, w') \<Rightarrow>
        (err = null_spreadsheet \<or> err = cannot_open \<or> err = no_permission \<or> err = service_failed)
        \<and> (\<forall>j name. kept_or_fresh w w' j name)"
proof (cases "select_store w")
  case (Throw err)
  with select_store_Throw [OF Throw] show ?thesis
    by (auto simp: getOrCreateLogSheet_selects kept_or_fresh_refl)
next
  case (Return p)
  obtain i ss where p: "p = (i, ss)"
    by (cases p)
  have files: "files w i = Some ss"
    using Return p select_store_files by simp
  from logs_then_append [OF files, of r] show ?thesis
    by (auto simp: getOrCreateLogSheet_selects Return p split: prod.splits completion.splits)
qed

section \<open>The ingest endpoint\<close>

lemma doPost_caught:
  assumes "doPost_try P e w = (Throw err, w')"
  shows "doPost P e w =
     (\<lparr>content = JSON_stringify (ok_false (message err)), mimeType = JSON\<rparr>,
      w'\<lparr>console := console w' @ [''Error in doPost: '' @ message err]\<rparr>)"
  using assms by (simp add: doPost_def)

lemma doPost_rowData_Throw:
  assumes "cbind (parse_params P e) rowData = Throw err"
  shows "doPost P e w =
     (\<lparr>content = JSON_stringify (ok_false (message err)), mimeType = JSON\<rparr>,
      w\<lparr>console := console w @ [''Error in doPost: '' @ message err]\<rparr>)"
  by (rule doPost_caught) (simp add: doPost_try_def assms)

lemma doPost_accepted:
  assumes "cbind (parse_params P e) rowData = Return r"
    and "select_store w = Return (i, ss)" and "editable ss"
  shows "doPost P e w =
     (\<lparr>content = JSON_stringify ok_true, mimeType = JSON\<rparr>,
      put_sheet i ''logs'' ((ensure_logs ss)\<lparr>cells := cells (ensure_logs ss) @ [r]\<rparr>) w)"
  using assms by (simp add: doPost_def doPost_try_def store_accepts)

lemma getProp_total:
  assumes "params \<noteq> JNull"
  shows "\<exists>f. \<forall>k. getProp params k = Return (f k)"
  using assms by (cases params) auto

lemma rowData_fields:
  assumes "\<And>k. getProp params k = Return (f k)"
  shows "rowData params =
     (if \<not> truthy (f ''event'') \<or> \<not> truthy (f ''userId'') \<or> \<not> truthy (f ''ts'')
      then Throw (Error ''Missing required parameters'')
      else cbind (toISOString (new_Date (parseInt (ToString (the (f ''ts''))))))
             (\<lambda>ts_iso. Return [JStr ts_iso, the (f ''event''), or_empty (f ''variant''),
                               the (f ''userId''), or_empty (f ''meta'')]))"
  by (auto simp: rowData_def cbind_def required_def assms split: option.splits completion.splits)

lemma rowData_JNull:
  "rowData JNull =
     Throw (TypeError (''Cannot read properties of null (reading '' @ [CHR 0x27] @ ''event''
       @ [CHR 0x27] @ '')''))"
  by (simp add: rowData_def cbind_def)

lemma getProp_parameter_object:
  "getProp (parameter_object ps) k = Return (map_option JStr (map_of ps k))"
  by (simp add: parameter_object_def map_of_map)

lemma log_rows_put_sheet:
  assumes "files w i = Some ss"
  shows "log_rows (put_sheet i ''logs'' sh w) i = Some (cells sh)"
  using assms by (simp add: log_rows_def put_sheet_def)

lemma cells_ensure_logs:
  assumes "files w i = Some ss"
  shows "cells (ensure_logs ss) = (case log_rows w i of None \<Rightarrow> [headers] | Some rs \<Rightarrow> rs)"
  using assms by (simp add: ensure_logs_def log_rows_def fresh_logs_def split: option.splits)

lemma select_store_bound_world:
  "select_store bound_world = Return (''book-1'', empty_book)"
  by (simp add: select_store_def bound_world_def)

text \<open>
  C1. A form POST carrying \<^verbatim>\<open>event=heartbeat\<close>, \<^verbatim>\<open>userId=u1\<close>,
  \<^verbatim>\<open>ts=1700000000000\<close> and neither \<^verbatim>\<open>variant\<close> nor \<^verbatim>\<open>meta\<close>, against a store
  that the endpoint can open and edit: the answer is the text \<^verbatim>\<open>{"ok":true}\<close>, and the
  rows of \<^verbatim>\<open>logs\<close> afterwards are the rows before (the header row alone when the sheet
  had to be created) followed by exactly the row
  \<^verbatim>\<open>["2023-11-14T22:13:20.000Z", "heartbeat", "", "u1", ""]\<close>.
\<close>

theorem C1_heartbeat_row:
  assumes "postData e = Some pd" and "type pd = ''application/x-www-form-urlencoded''"
    and "map_of (parameter e) ''event'' = Some ''heartbeat''"
    and "map_of (parameter e) ''userId'' = Some ''u1''"
    and "map_of (parameter e) ''ts'' = Some ''1700000000000''"
    and "map_of (parameter e) ''variant'' = None"
    and "map_of (parameter e) ''meta'' = None"
    and "select_store w = Return (i, ss)" and "editable ss"
  shows "fst (doPost JSON_parse e w) =
           \<lparr>content = ''{'' @ [CHR 0x22] @ ''ok'' @ [CHR 0x22] @ '':true}'', mimeType = JSON\<rparr>
    \<and> log_rows (snd (doPost JSON_parse e w)) i =
        Some ((case log_rows w i of None \<Rightarrow> [headers] | Some rs \<Rightarrow> rs)
              @ [[JStr ''2023-11-14T22:13:20.000Z'', JStr ''heartbeat'', JStr [], JStr ''u1'',
                  JStr []]])"
proof -
  let ?row = "[JStr ''2023-11-14T22:13:20.000Z'', JStr ''heartbeat'', JStr [], JStr ''u1'', JStr []]"
  have params: "parse_params JSON_parse e = Return (parameter_object (parameter e))"
    using assms(1,2) by (simp add: parse_params_def)
  have "rowData (parameter_object (parameter e)) = Return ?row"
    by (simp add: rowData_fields [OF getProp_parameter_object] assms(3-7)
        toISOString_1700000000000 cbind_def or_empty_def)
  then have row: "cbind (parse_params JSON_parse e) rowData = Return ?row"
    by (simp add: params cbind_def)
  have files: "files w i = Some ss"
    using assms(8) by (rule select_store_files)
  show ?thesis
    by (simp add: doPost_accepted [OF row assms(8,9)] JSON_stringify_ok_true
        log_rows_put_sheet [OF files] cells_ensure_logs [OF files])
qed

theorem C1_heartbeat_row_witness:
  "fst (doPost reject_all heartbeat_post bound_world) =
     \<lparr>content = ''{'' @ [CHR 0x22] @ ''ok'' @ [CHR 0x22] @ '':true}'', mimeType = JSON\<rparr>
   \<and> log_rows (snd (doPost reject_all heartbeat_post bound_world)) ''book-1'' =
       Some [headers,
             [JStr ''2023-11-14T22:13:20.000Z'', JStr ''heartbeat'', JStr [], JStr ''u1'', JStr []]]"
proof -
  have pd: "postData heartbeat_post =
      Some \<lparr>type = ''application/x-www-form-urlencoded'', contents = []\<rparr>"
    by (simp add: heartbeat_post_def form_post_def)
  have rows: "log_rows bound_world ''book-1'' = None"
    by (simp add: log_rows_def bound_world_def empty_book_def)
  have "editable empty_book"
    by (simp add: empty_book_def editable_def)
  with C1_heartbeat_row [OF pd _ _ _ _ _ _ select_store_bound_world, of reject_all]
  show ?thesis
    by (simp add: heartbeat_post_def form_post_def rows)
qed

text \<open>
  C6. A POST whose declared content type is neither \<^verbatim>\<open>application/x-www-form-urlencoded\<close>
  nor \<^verbatim>\<open>application/json\<close> is answered with the failure body
  \<^verbatim>\<open>{"ok":false,"error":"Unsupported content type: <type>"}\<close>, and the world is
  left as it was but for the line on the console: no sheet is created, no row appended.
\<close>

theorem C6_unsupported_content_type:
  assumes "postData e = Some pd"
    and "type pd \<noteq> ''application/x-www-form-urlencoded''"
    and "type pd \<noteq> ''application/json''"
  shows "doPost JSON_parse e w =
     (\<lparr>content = ''{'' @ [CHR 0x22] @ ''ok'' @ [CHR 0x22] @ '':false,'' @ [CHR 0x22] @ ''error''
                  @ [CHR 0x22] @ '':'' @ QuoteJSONString (''Unsupported content type: '' @ type pd)
                  @ ''}'',
       mimeType = JSON\<rparr>,
      w\<lparr>console := console w @ [''Error in doPost: Unsupported content type: '' @ type pd]\<rparr>)"
proof -
  have "parse_params JSON_parse e = Throw (Error (''Unsupported content type: '' @ type pd))"
    using assms by (simp add: parse_params_def)
  then have "cbind (parse_params JSON_parse e) rowData
      = Throw (Error (''Unsupported content type: '' @ type pd))"
    by (simp add: cbind_def)
  from doPost_rowData_Throw [OF this] show ?thesis
    by (simp add: JSON_stringify_ok_false)
qed

theorem C6_unsupported_content_type_witness:
  "doPost reject_all text_plain_post bound_world =
     (\<lparr>content = ''{'' @ [CHR 0x22] @ ''ok'' @ [CHR 0x22] @ '':false,'' @ [CHR 0x22] @ ''error''
                  @ [CHR 0x22] @ '':'' @ [CHR 0x22] @ ''Unsupported content type: text/plain''
                  @ [CHR 0x22] @ ''}'',
       mimeType = JSON\<rparr>,
      bound_world\<lparr>console := [''Error in doPost: Unsupported content type: text/plain'']\<rparr>)
   \<and> log_rows (snd (doPost reject_all text_plain_post bound_world)) ''book-1'' = None"
proof -
  have pd: "postData text_plain_post = Some \<lparr>type = ''text/plain'', contents = ''hello''\<rparr>"
    by (simp add: text_plain_post_def)
  have q: "QuoteJSONString ''Unsupported content type: text/plain''
      = [CHR 0x22] @ ''Unsupported content type: text/plain'' @ [CHR 0x22]"
    by (simp add: QuoteJSONString_def escape_char_def)
  from C6_unsupported_content_type [OF pd, of reject_all bound_world]
  show ?thesis
    by (simp add: q) (simp add: bound_world_def log_rows_def empty_book_def)
qed

lemma sheet_rows_console:
  "sheet_rows (w\<lparr>console := c\<rparr>) = sheet_rows w"
  by (rule ext)+ (simp add: sheet_rows_def)

lemma rowData_heartbeat:
  "cbind (parse_params P heartbeat_post) rowData =
     Return [JStr ''2023-11-14T22:13:20.000Z'', JStr ''heartbeat'', JStr [], JStr ''u1'', JStr []]"
proof -
  have "rowData (parameter_object (parameter heartbeat_post)) =
      Return [JStr ''2023-11-14T22:13:20.000Z'', JStr ''heartbeat'', JStr [], JStr ''u1'', JStr []]"
    by (simp add: rowData_fields [OF getProp_parameter_object] heartbeat_post_def form_post_def
        toISOString_1700000000000 cbind_def or_empty_def)
  then show ?thesis
    by (simp add: parse_params_def heartbeat_post_def form_post_def cbind_def)
qed

lemma ten_writes_run:
  "andThen getOrCreateLogSheet (\<lambda>sheet. appendRow sheet r) ten_writes_world =
     (Throw service_failed,
      ten_writes_world\<lparr>files := [''book-1'' \<mapsto>
        \<lparr>sheets = [''logs'' \<mapsto> fresh_logs], may_edit = True, writes_left = Some 0\<rparr>]\<rparr>)"
  by (simp add: getOrCreateLogSheet_def default_logs_def logs_of_def andThen_def getProperty_def
      getActiveSpreadsheet_def getSheetByName_def insertSheet_def initSheetHeaders_def
      setValues_row1_def setFrozenRows_def setBackground_row1_def setFontWeight_row1_def
      setColumnWidth_def appendRow_def modify_sheet_def spend_def ten_writes_world_def
      bound_world_def empty_book_def new_sheet_def fresh_logs_def)

text \<open>
  C7, as stated, fails: the store is not always left unchanged on a failure. The
  heartbeat request, in a world whose bound spreadsheet has no sheet \<^verbatim>\<open>logs\<close> and
  whose service carries out ten more writes, creates the sheet, writes its headers,
  and fails at the append: the answer is the failure body, and the sheet \<^verbatim>\<open>logs\<close>,
  absent before, is there with its header row.
\<close>

theorem C7_counterexample:
  "log_rows ten_writes_world ''book-1'' = None
   \<and> fst (doPost reject_all heartbeat_post ten_writes_world) =
       \<lparr>content = ''{'' @ [CHR 0x22] @ ''ok'' @ [CHR 0x22] @ '':false,'' @ [CHR 0x22] @ ''error''
                    @ [CHR 0x22] @ '':'' @ [CHR 0x22]
                    @ ''Service Spreadsheets failed while accessing document.'' @ [CHR 0x22] @ ''}'',
         mimeType = JSON\<rparr>
   \<and> log_rows (snd (doPost reject_all heartbeat_post ten_writes_world)) ''book-1'' = Some [headers]"
proof -
  have before: "log_rows ten_writes_world ''book-1'' = None"
    by (simp add: log_rows_def ten_writes_world_def empty_book_def)
  have "doPost_try reject_all heartbeat_post ten_writes_world =
     (Throw service_failed,
      ten_writes_world\<lparr>files := [''book-1'' \<mapsto>
        \<lparr>sheets = [''logs'' \<mapsto> fresh_logs], may_edit = True, writes_left = Some 0\<rparr>]\<rparr>)"
    by (simp add: doPost_try_def rowData_heartbeat ten_writes_run)
  from doPost_caught [OF this] before show ?thesis
    by (simp add: JSON_stringify_ok_false QuoteJSONString_def escape_char_def service_failed_def
        log_rows_def fresh_logs_def)
qed

text \<open>
  C7, as amended. The handler never raises: every request is answered, with the
  failure body \<^verbatim>\<open>{"ok":false,"error":"<message>"}\<close> or with \<^verbatim>\<open>{"ok":true}\<close>. On a
  failure no row is appended: every sheet has the rows it had, except that a sheet
  \<^verbatim>\<open>logs\<close> which was not there may have been created, with no row or with its header
  row alone (the service failed after creating it, and nothing is rolled back). On a
  success exactly the row built from the request is appended to the ensured sheet
  \<^verbatim>\<open>logs\<close> of the selected spreadsheet and no other sheet changes. And when the
  failure is of the request itself (content type, JSON text, required field,
  timestamp), the world is as before but for the line on the console.
\<close>

theorem C7_failure_appends_no_row:
  "((\<exists>err. fst (doPost JSON_parse e w) =
              \<lparr>content = JSON_stringify (ok_false (message err)), mimeType = JSON\<rparr>
         \<and> (\<forall>ident name.
               sheet_rows (snd (doPost JSON_parse e w)) ident name = sheet_rows w ident name
               \<or> (sheet_rows w ident name = None \<and> name = ''logs''
                   \<and> (sheet_rows (snd (doPost JSON_parse e w)) ident name = Some []
                       \<or> sheet_rows (snd (doPost JSON_parse e w)) ident name = Some [headers]))))
    \<or> (\<exists>r i ss. cbind (parse_params JSON_parse e) rowData = Return r
         \<and> select_store w = Return (i, ss)
         \<and> fst (doPost JSON_parse e w) = \<lparr>content = JSON_stringify ok_true, mimeType = JSON\<rparr>
         \<and> sheet_rows (snd (doPost JSON_parse e w)) i ''logs'' =
             Some ((case sheet_rows w i ''logs'' of None \<Rightarrow> [headers] | Some rs \<Rightarrow> rs) @ [r])
         \<and> (\<forall>ident name. (ident, name) \<noteq> (i, ''logs'')
               \<longrightarrow> sheet_rows (snd (doPost JSON_parse e w)) ident name = sheet_rows w ident name)))
   \<and> (\<forall>err. cbind (parse_params JSON_parse e) rowData = Throw err
         \<longrightarrow> doPost JSON_parse e w =
               (\<lparr>content = JSON_stringify (ok_false (message err)), mimeType = JSON\<rparr>,
                w\<lparr>console := console w @ [''Error in doPost: '' @ message err]\<rparr>))"
proof (intro conjI allI impI)
  show "doPost JSON_parse e w =
      (\<lparr>content = JSON_stringify (ok_false (message err)), mimeType = JSON\<rparr>,
       w\<lparr>console := console w @ [''Error in doPost: '' @ message err]\<rparr>)"
    if "cbind (parse_params JSON_parse e) rowData = Throw err" for err
    using that by (rule doPost_rowData_Throw)
next
  let ?w' = "snd (doPost JSON_parse e w)"
  let ?failed = "\<exists>err. fst (doPost JSON_parse e w) =
              \<lparr>content = JSON_stringify (ok_false (message err)), mimeType = JSON\<rparr>
         \<and> (\<forall>ident name.
               sheet_rows ?w' ident name = sheet_rows w ident name
               \<or> (sheet_rows w ident name = None \<and> name = ''logs''
                   \<and> (sheet_rows ?w' ident name = Some []
                       \<or> sheet_rows ?w' ident name = Some [headers])))"
  let ?stored = "\<exists>r i ss. cbind (parse_params JSON_parse e) rowData = Return r
         \<and> select_store w = Return (i, ss)
         \<and> fst (doPost JSON_parse e w) = \<lparr>content = JSON_stringify ok_true, mimeType = JSON\<rparr>
         \<and> sheet_rows ?w' i ''logs'' =
             Some ((case sheet_rows w i ''logs'' of None \<Rightarrow> [headers] | Some rs \<Rightarrow> rs) @ [r])
         \<and> (\<forall>ident name. (ident, name) \<noteq> (i, ''logs'')
               \<longrightarrow> sheet_rows ?w' ident name = sheet_rows w ident name)"
  show "?failed \<or> ?stored"
  proof (cases "cbind (parse_params JSON_parse e) rowData")
    case (Throw err)
    from doPost_rowData_Throw [OF this, of w] have ?failed
      by (auto simp: sheet_rows_console)
    then show ?thesis ..
  next
    case (Return r)
    obtain c w1 where run: "andThen getOrCreateLogSheet (\<lambda>sheet. appendRow sheet r) w = (c, w1)"
      by (cases "andThen getOrCreateLogSheet (\<lambda>sheet. appendRow sheet r) w")
    then have tried: "doPost_try JSON_parse e w = (c, w1)"
      by (simp add: doPost_try_def Return)
    show ?thesis
    proof (cases c)
      case thrown: (Throw err)
      with store_outcome [where r = r and w = w] run
      have kept: "kept_or_fresh w w1 ident name" for ident name
        by simp
      from tried thrown have "doPost JSON_parse e w =
          (\<lparr>content = JSON_stringify (ok_false (message err)), mimeType = JSON\<rparr>,
           w1\<lparr>console := console w1 @ [''Error in doPost: '' @ message err]\<rparr>)"
        by (simp add: doPost_caught)
      with kept have ?failed
        by (auto simp: sheet_rows_console kept_or_fresh_def)
      then show ?thesis ..
    next
      case returned: (Return u)
      with store_outcome [where r = r and w = w] run
      obtain i ss where sel: "select_store w = Return (i, ss)"
        and at: "at_logs w i
          ((case sheet_rows w i ''logs'' of None \<Rightarrow> [headers] | Some rs \<Rightarrow> rs) @ [r]) w1"
        by auto
      from tried returned have "doPost JSON_parse e w =
          (\<lparr>content = JSON_stringify ok_true, mimeType = JSON\<rparr>, w1)"
        by (simp add: doPost_def)
      with Return sel at_logs_rows [OF at] at_logs_others [OF at] have ?stored
        by auto
      then show ?thesis ..
    qed
  qed
qed

theorem C7_failure_appends_no_row_witness:
  "doPost reject_all malformed_json_post bound_world =
     (\<lparr>content = JSON_stringify (ok_false ''Unexpected token in JSON at position 0''),
       mimeType = JSON\<rparr>,
      bound_world\<lparr>console := [''Error in doPost: Unexpected token in JSON at position 0'']\<rparr>)
   \<and> (sheet_rows (snd (doPost reject_all heartbeat_post ten_writes_world)) ''book-1'' ''logs''
        = Some [] 
      \<or> sheet_rows (snd (doPost reject_all heartbeat_post ten_writes_world)) ''book-1'' ''logs''
        = Some [headers])"
proof -
  have malformed: "cbind (parse_params reject_all malformed_json_post) rowData
      = Throw (SyntaxError ''Unexpected token in JSON at position 0'')"
    by (simp add: parse_params_def malformed_json_post_def reject_all_def cbind_def)
  have before: "sheet_rows ten_writes_world ''book-1'' ''logs'' = None"
    by (simp add: sheet_rows_def ten_writes_world_def empty_book_def)
  have "doPost_try reject_all heartbeat_post ten_writes_world =
     (Throw service_failed,
      ten_writes_world\<lparr>files := [''book-1'' \<mapsto>
        \<lparr>sheets = [''logs'' \<mapsto> fresh_logs], may_edit = True, writes_left = Some 0\<rparr>]\<rparr>)"
    by (simp add: doPost_try_def rowData_heartbeat ten_writes_run)
  note answer = doPost_caught [OF this]
  have fails: "fst (doPost reject_all heartbeat_post ten_writes_world)
      \<noteq> \<lparr>content = JSON_stringify ok_true, mimeType = JSON\<rparr>"
    by (simp add: answer JSON_stringify_ok_false JSON_stringify_ok_true)
  have changed: "sheet_rows (snd (doPost reject_all heartbeat_post ten_writes_world)) ''book-1'' ''logs''
      \<noteq> sheet_rows ten_writes_world ''book-1'' ''logs''"
    unfolding before by (simp add: answer sheet_rows_def)
  from C7_failure_appends_no_row [of reject_all malformed_json_post bound_world] malformed
  have first: "doPost reject_all malformed_json_post bound_world =
     (\<lparr>content = JSON_stringify (ok_false ''Unexpected token in JSON at position 0''),
       mimeType = JSON\<rparr>,
      bound_world\<lparr>console := [''Error in doPost: Unexpected token in JSON at position 0'']\<rparr>)"
    by (simp add: bound_world_def)
  from C7_failure_appends_no_row [of reject_all heartbeat_post ten_writes_world] fails changed
  have "sheet_rows (snd (doPost reject_all heartbeat_post ten_writes_world)) ''book-1'' ''logs''
        = Some [] 
      \<or> sheet_rows (snd (doPost reject_all heartbeat_post ten_writes_world)) ''book-1'' ''logs''
        = Some [headers]"
    by blast
  with first show ?thesis ..
qed

lemma toISOString_Throw:
  "toISOString tv = Throw err \<longleftrightarrow> tv = None \<and> err = RangeError ''Invalid time value''"
  by (auto simp: toISOString_def Let_def split: option.splits prod.splits)

lemma rowData_Throw_cases:
  assumes "rowData params = Throw err"
  shows "err = Error ''Missing required parameters''
     \<and> (falsy_field params ''event'' \<or> falsy_field params ''userId'' \<or> falsy_field params ''ts'')
   \<or> err = RangeError ''Invalid time value''
     \<and> \<not> (falsy_field params ''event'' \<or> falsy_field params ''userId'' \<or> falsy_field params ''ts'')
   \<or> err = TypeError (''Cannot read properties of null (reading '' @ [CHR 0x27] @ ''event''
       @ [CHR 0x27] @ '')'')
     \<and> \<not> (falsy_field params ''event'' \<or> falsy_field params ''userId'' \<or> falsy_field params ''ts'')"
proof (cases "params = JNull")
  case True
  with assms show ?thesis
    by (simp add: rowData_JNull falsy_field_def)
next
  case False
  then obtain f where f: "\<And>k. getProp params k = Return (f k)"
    using getProp_total by blast
  from assms show ?thesis
    by (auto simp: rowData_fields [OF f] falsy_field_def f cbind_def toISOString_Throw
        split: if_splits completion.splits)
qed

lemma rowData_Return_fields:
  assumes "rowData params = Return r"
  shows "\<not> (falsy_field params ''event'' \<or> falsy_field params ''userId'' \<or> falsy_field params ''ts'')"
proof (cases "params = JNull")
  case True
  with assms show ?thesis
    by (simp add: rowData_JNull)
next
  case False
  then obtain f where f: "\<And>k. getProp params k = Return (f k)"
    using getProp_total by blast
  from assms show ?thesis
    by (auto simp: rowData_fields [OF f] falsy_field_def f split: if_splits)
qed

lemma rowData_missing:
  assumes "falsy_field params ''event'' \<or> falsy_field params ''userId'' \<or> falsy_field params ''ts''"
  shows "rowData params = Throw (Error ''Missing required parameters'')"
proof (cases "rowData params")
  case (Return r)
  with assms rowData_Return_fields show ?thesis
    by blast
next
  case (Throw err)
  with assms rowData_Throw_cases [OF Throw] show ?thesis
    by blast
qed

lemma other_messages:
  "JSON_stringify (ok_false ''Invalid time value'')
     \<noteq> JSON_stringify (ok_false ''Missing required parameters'')"
  "JSON_stringify (ok_false (''Cannot read properties of null (reading '' @ [CHR 0x27] @ ''event''
       @ [CHR 0x27] @ '')''))
     \<noteq> JSON_stringify (ok_false ''Missing required parameters'')"
  "JSON_stringify (ok_false (message null_spreadsheet))
     \<noteq> JSON_stringify (ok_false ''Missing required parameters'')"
  "JSON_stringify (ok_false (message cannot_open))
     \<noteq> JSON_stringify (ok_false ''Missing required parameters'')"
  "JSON_stringify (ok_false (message no_permission))
     \<noteq> JSON_stringify (ok_false ''Missing required parameters'')"
  "JSON_stringify (ok_false (message service_failed))
     \<noteq> JSON_stringify (ok_false ''Missing required parameters'')"
  "JSON_stringify ok_true \<noteq> JSON_stringify (ok_false ''Missing required parameters'')"
  by (simp_all add: JSON_stringify_ok_false JSON_stringify_ok_true QuoteJSONString_def
      escape_char_def null_spreadsheet_def cannot_open_def no_permission_def service_failed_def)

lemma doPost_Return_content:
  assumes "cbind (parse_params P e) rowData = Return r"
  shows "content (fst (doPost P e w)) = JSON_stringify ok_true
    \<or> content (fst (doPost P e w)) = JSON_stringify (ok_false (message null_spreadsheet))
    \<or> content (fst (doPost P e w)) = JSON_stringify (ok_false (message cannot_open))
    \<or> content (fst (doPost P e w)) = JSON_stringify (ok_false (message no_permission))
    \<or> content (fst (doPost P e w)) = JSON_stringify (ok_false (message service_failed))"
proof (cases "andThen getOrCreateLogSheet (\<lambda>sheet. appendRow sheet r) w")
  case (Pair c w')
  with store_outcome [where r = r and w = w] show ?thesis
    by (cases c) (auto simp: doPost_def doPost_try_def assms)
qed

lemma falsy_form_field:
  "falsy_field (parameter_object ps) k \<longleftrightarrow> map_of ps k = None \<or> map_of ps k = Some []"
  by (cases "map_of ps k") (simp_all add: falsy_field_def getProp_parameter_object)

text \<open>
  C2, as amended. For a request of a supported encoding whose parameters were parsed,
  the endpoint answers with the validation error \<^verbatim>\<open>Missing required parameters\<close>
  (and leaves the store untouched) exactly when one of \<^verbatim>\<open>event\<close>, \<^verbatim>\<open>userId\<close>,
  \<^verbatim>\<open>ts\<close> is absent or not truthy; \<^verbatim>\<open>variant\<close> and \<^verbatim>\<open>meta\<close> play no part. For form
  data, not truthy means absent or the empty string.
\<close>

theorem C2_validation:
  assumes "parse_params JSON_parse e = Return params"
  shows "(doPost JSON_parse e w =
            (\<lparr>content = JSON_stringify (ok_false ''Missing required parameters''), mimeType = JSON\<rparr>,
             w\<lparr>console := console w @ [''Error in doPost: Missing required parameters'']\<rparr>)
          \<longleftrightarrow> falsy_field params ''event'' \<or> falsy_field params ''userId'' \<or> falsy_field params ''ts'')
    \<and> (postData e = Some pd \<and> type pd = ''application/x-www-form-urlencoded''
          \<longrightarrow> (falsy_field params k
                 \<longleftrightarrow> map_of (parameter e) k = None \<or> map_of (parameter e) k = Some []))"
proof (intro conjI iffI impI)
  assume falsy: "falsy_field params ''event'' \<or> falsy_field params ''userId'' \<or> falsy_field params ''ts''"
  have "cbind (parse_params JSON_parse e) rowData = Throw (Error ''Missing required parameters'')"
    by (simp add: assms cbind_def rowData_missing [OF falsy])
  from doPost_rowData_Throw [OF this]
  show "doPost JSON_parse e w =
      (\<lparr>content = JSON_stringify (ok_false ''Missing required parameters''), mimeType = JSON\<rparr>,
       w\<lparr>console := console w @ [''Error in doPost: Missing required parameters'']\<rparr>)"
    by simp
next
  assume rejected: "doPost JSON_parse e w =
      (\<lparr>content = JSON_stringify (ok_false ''Missing required parameters''), mimeType = JSON\<rparr>,
       w\<lparr>console := console w @ [''Error in doPost: Missing required parameters'']\<rparr>)"
  then have content: "content (fst (doPost JSON_parse e w))
      = JSON_stringify (ok_false ''Missing required parameters'')"
    by simp
  show "falsy_field params ''event'' \<or> falsy_field params ''userId'' \<or> falsy_field params ''ts''"
  proof (cases "rowData params")
    case (Return r)
    then have "cbind (parse_params JSON_parse e) rowData = Return r"
      by (simp add: assms cbind_def)
    from doPost_Return_content [OF this, of w] content other_messages show ?thesis
      by auto
  next
    case (Throw err)
    then have "cbind (parse_params JSON_parse e) rowData = Throw err"
      by (simp add: assms cbind_def)
    from doPost_rowData_Throw [OF this, of w] content
    have "JSON_stringify (ok_false (message err))
        = JSON_stringify (ok_false ''Missing required parameters'')"
      by simp
    with rowData_Throw_cases [OF Throw] other_messages show ?thesis
      by auto
  qed
next
  assume "postData e = Some pd \<and> type pd = ''application/x-www-form-urlencoded''"
  with assms have params: "params = parameter_object (parameter e)"
    by (auto simp: parse_params_def)
  {
    assume "falsy_field params k"
    then show "map_of (parameter e) k = None \<or> map_of (parameter e) k = Some []"
      by (simp add: params falsy_form_field)
  next
    assume "map_of (parameter e) k = None \<or> map_of (parameter e) k = Some []"
    then show "falsy_field params k"
      by (simp add: params falsy_form_field)
  }
qed

theorem C2_validation_witness:
  "doPost reject_all heartbeat_post bound_world \<noteq>
     (\<lparr>content = JSON_stringify (ok_false ''Missing required parameters''), mimeType = JSON\<rparr>,
      bound_world\<lparr>console := console bound_world @ [''Error in doPost: Missing required parameters'']\<rparr>)"
proof -
  have parsed: "parse_params reject_all heartbeat_post =
      Return (parameter_object (parameter heartbeat_post))"
    by (simp add: parse_params_def heartbeat_post_def form_post_def)
  have "\<not> (falsy_field (parameter_object (parameter heartbeat_post)) ''event''
      \<or> falsy_field (parameter_object (parameter heartbeat_post)) ''userId''
      \<or> falsy_field (parameter_object (parameter heartbeat_post)) ''ts'')"
    by (simp add: falsy_form_field heartbeat_post_def form_post_def)
  with C2_validation [OF parsed, of bound_world] show ?thesis
    by blast
qed

text \<open>
  C2, as stated, fails: a form POST that carries all three required fields, with
  \<^verbatim>\<open>event\<close> present and empty, is rejected with the validation error.
\<close>

theorem C2_counterexample:
  "map_of (parameter empty_event_post) ''event'' = Some []
   \<and> map_of (parameter empty_event_post) ''userId'' = Some ''u1''
   \<and> map_of (parameter empty_event_post) ''ts'' = Some ''1700000000000''
   \<and> doPost reject_all empty_event_post bound_world =
       (\<lparr>content = ''{'' @ [CHR 0x22] @ ''ok'' @ [CHR 0x22] @ '':false,'' @ [CHR 0x22] @ ''error''
                    @ [CHR 0x22] @ '':'' @ [CHR 0x22] @ ''Missing required parameters''
                    @ [CHR 0x22] @ ''}'',
         mimeType = JSON\<rparr>,
        bound_world\<lparr>console := [''Error in doPost: Missing required parameters'']\<rparr>)"
proof -
  have "rowData (parameter_object (parameter empty_event_post))
      = Throw (Error ''Missing required parameters'')"
    by (rule rowData_missing) (simp add: falsy_form_field empty_event_post_def form_post_def)
  then have "cbind (parse_params reject_all empty_event_post) rowData
      = Throw (Error ''Missing required parameters'')"
    by (simp add: parse_params_def empty_event_post_def form_post_def cbind_def)
  from doPost_rowData_Throw [OF this, of bound_world] show ?thesis
    by (simp add: JSON_stringify_ok_false QuoteJSONString_def escape_char_def)
       (simp add: empty_event_post_def form_post_def bound_world_def)
qed

text \<open>
  C10, as stated, fails: the text \<^verbatim>\<open>12abc\<close> is not an integer number of milliseconds,
  and the request that carries it as \<^verbatim>\<open>ts\<close> is accepted. \<^verbatim>\<open>parseInt\<close> reads the
  leading \<^verbatim>\<open>12\<close>, and the row is stored under twelve milliseconds past the epoch.
\<close>

theorem C10_counterexample:
  "map_of (parameter mixed_ts_post) ''ts'' = Some ''12abc''
   \<and> fst (doPost reject_all mixed_ts_post bound_world) =
       \<lparr>content = ''{'' @ [CHR 0x22] @ ''ok'' @ [CHR 0x22] @ '':true}'', mimeType = JSON\<rparr>
   \<and> log_rows (snd (doPost reject_all mixed_ts_post bound_world)) ''book-1'' =
       Some [headers,
             [JStr ''1970-01-01T00:00:00.012Z'', JStr ''heartbeat'', JStr [], JStr ''u1'', JStr []]]"
proof -
  let ?row = "[JStr ''1970-01-01T00:00:00.012Z'', JStr ''heartbeat'', JStr [], JStr ''u1'', JStr []]"
  have "rowData (parameter_object (parameter mixed_ts_post)) = Return ?row"
    by (simp add: rowData_fields [OF getProp_parameter_object] mixed_ts_post_def form_post_def
        parseInt_12abc toISOString_12 cbind_def or_empty_def)
  then have row: "cbind (parse_params reject_all mixed_ts_post) rowData = Return ?row"
    by (simp add: parse_params_def mixed_ts_post_def form_post_def cbind_def)
  have files: "files bound_world ''book-1'' = Some empty_book"
    by (simp add: bound_world_def)
  have writable: "editable empty_book"
    by (simp add: empty_book_def editable_def)
  have before: "log_rows bound_world ''book-1'' = None"
    by (simp add: log_rows_def bound_world_def empty_book_def)
  show ?thesis
    by (simp add: doPost_accepted [OF row select_store_bound_world writable]
        JSON_stringify_ok_true log_rows_put_sheet [OF files] cells_ensure_logs [OF files] before)
       (simp add: mixed_ts_post_def form_post_def)
qed

text \<open>
  C10, as amended. With a supported encoding and the three required fields truthy, the
  timestamp is what \<^verbatim>\<open>parseInt\<close> reads at the start of \<^verbatim>\<open>ts\<close>. When it reads no
  number (\<^verbatim>\<open>NaN\<close>), or a number beyond the range of dates, the date is invalid and
  \<^verbatim>\<open>toISOString\<close> throws before the store is touched: the answer is
  \<^verbatim>\<open>{"ok":false,"error":"Invalid time value"}\<close> and no row is appended. When it reads a
  number within the range, whatever follows the digits, the request is accepted: with
  a store that can be opened and edited, the row is appended under the ISO text of
  that number.
\<close>

theorem C10_ts_read_by_parseInt:
  assumes "parse_params JSON_parse e = Return params"
    and "getProp params ''event'' = Return ev" and "truthy ev"
    and "getProp params ''userId'' = Return uid" and "truthy uid"
    and "getProp params ''ts'' = Return (Some ts)" and "truthy (Some ts)"
  shows "(new_Date (parseInt (ToString ts)) = None
          \<longrightarrow> doPost JSON_parse e w =
              (\<lparr>content = ''{'' @ [CHR 0x22] @ ''ok'' @ [CHR 0x22] @ '':false,'' @ [CHR 0x22]
                    @ ''error'' @ [CHR 0x22] @ '':'' @ [CHR 0x22] @ ''Invalid time value''
                    @ [CHR 0x22] @ ''}'',
                mimeType = JSON\<rparr>,
               w\<lparr>console := console w @ [''Error in doPost: Invalid time value'']\<rparr>))
    \<and> (new_Date (parseInt (ToString ts)) = Some t
          \<and> select_store w = Return (i, ss) \<and> editable ss
          \<longrightarrow> (\<exists>iso r. toISOString (Some t) = Return iso
                \<and> fst (doPost JSON_parse e w) =
                    \<lparr>content = ''{'' @ [CHR 0x22] @ ''ok'' @ [CHR 0x22] @ '':true}'',
                      mimeType = JSON\<rparr>
                \<and> log_rows (snd (doPost JSON_parse e w)) i =
                    Some ((case log_rows w i of None \<Rightarrow> [headers] | Some rs \<Rightarrow> rs) @ [r])
                \<and> r ! 0 = JStr iso))"
proof -
  from assms(2) have "params \<noteq> JNull"
    by auto
  then obtain f where f: "\<And>k. getProp params k = Return (f k)"
    using getProp_total by blast
  have fields: "truthy (f ''event'')" "truthy (f ''userId'')" "f ''ts'' = Some ts"
    using assms(2-7) by (simp_all add: f)
  show ?thesis
  proof (intro conjI impI)
    assume "new_Date (parseInt (ToString ts)) = None"
    then have "rowData params = Throw (RangeError ''Invalid time value'')"
      using fields assms(7)
      by (simp add: rowData_fields [OF f] cbind_def toISOString_def)
    then have "cbind (parse_params JSON_parse e) rowData = Throw (RangeError ''Invalid time value'')"
      by (simp add: assms(1) cbind_def)
    from doPost_rowData_Throw [OF this, of w]
    show "doPost JSON_parse e w =
              (\<lparr>content = ''{'' @ [CHR 0x22] @ ''ok'' @ [CHR 0x22] @ '':false,'' @ [CHR 0x22]
                    @ ''error'' @ [CHR 0x22] @ '':'' @ [CHR 0x22] @ ''Invalid time value''
                    @ [CHR 0x22] @ ''}'',
                mimeType = JSON\<rparr>,
               w\<lparr>console := console w @ [''Error in doPost: Invalid time value'']\<rparr>)"
      by (simp add: JSON_stringify_ok_false QuoteJSONString_def escape_char_def)
  next
    assume valid: "new_Date (parseInt (ToString ts)) = Some t
        \<and> select_store w = Return (i, ss) \<and> editable ss"
    obtain iso where iso: "toISOString (Some t) = Return iso"
      by (cases "toISOString (Some t)") (simp_all add: toISOString_Throw)
    let ?r = "[JStr iso, the (f ''event''), or_empty (f ''variant''), the (f ''userId''),
               or_empty (f ''meta'')]"
    have "rowData params = Return ?r"
      using fields assms(7) valid
      by (simp add: rowData_fields [OF f] cbind_def iso)
    then have row: "cbind (parse_params JSON_parse e) rowData = Return ?r"
      by (simp add: assms(1) cbind_def)
    from valid have sel: "select_store w = Return (i, ss)" and writable: "editable ss"
      by simp_all
    have files: "files w i = Some ss"
      using sel by (rule select_store_files)
    have "fst (doPost JSON_parse e w) =
            \<lparr>content = ''{'' @ [CHR 0x22] @ ''ok'' @ [CHR 0x22] @ '':true}'', mimeType = JSON\<rparr>
        \<and> log_rows (snd (doPost JSON_parse e w)) i =
            Some ((case log_rows w i of None \<Rightarrow> [headers] | Some rs \<Rightarrow> rs) @ [?r])"
      by (simp add: doPost_accepted [OF row sel writable] JSON_stringify_ok_true
          log_rows_put_sheet [OF files] cells_ensure_logs [OF files])
    with iso show "\<exists>iso r. toISOString (Some t) = Return iso
                \<and> fst (doPost JSON_parse e w) =
                    \<lparr>content = ''{'' @ [CHR 0x22] @ ''ok'' @ [CHR 0x22] @ '':true}'',
                      mimeType = JSON\<rparr>
                \<and> log_rows (snd (doPost JSON_parse e w)) i =
                    Some ((case log_rows w i of None \<Rightarrow> [headers] | Some rs \<Rightarrow> rs) @ [r])
                \<and> r ! 0 = JStr iso"
      by (intro exI [of _ iso] exI [of _ ?r]) simp
  qed
qed

theorem C10_ts_read_by_parseInt_witness:
  "doPost reject_all bad_ts_post bound_world =
     (\<lparr>content = ''{'' @ [CHR 0x22] @ ''ok'' @ [CHR 0x22] @ '':false,'' @ [CHR 0x22] @ ''error''
                  @ [CHR 0x22] @ '':'' @ [CHR 0x22] @ ''Invalid time value'' @ [CHR 0x22] @ ''}'',
       mimeType = JSON\<rparr>,
      bound_world\<lparr>console := [''Error in doPost: Invalid time value'']\<rparr>)
   \<and> log_rows (snd (doPost reject_all bad_ts_post bound_world)) ''book-1'' = None
   \<and> (\<exists>r. log_rows (snd (doPost reject_all mixed_ts_post bound_world)) ''book-1''
             = Some [headers, r]
          \<and> r ! 0 = JStr ''1970-01-01T00:00:00.012Z'')"
proof -
  have parsed: "parse_params reject_all bad_ts_post = Return (parameter_object (parameter bad_ts_post))"
    by (simp add: parse_params_def bad_ts_post_def form_post_def)
  have fields: "getProp (parameter_object (parameter bad_ts_post)) ''event'' = Return (Some (JStr ''heartbeat''))"
    "getProp (parameter_object (parameter bad_ts_post)) ''userId'' = Return (Some (JStr ''u1''))"
    "getProp (parameter_object (parameter bad_ts_post)) ''ts'' = Return (Some (JStr ''abc''))"
    by (simp_all add: getProp_parameter_object bad_ts_post_def form_post_def)
  have nan: "new_Date (parseInt (ToString (JStr ''abc''))) = None"
    by (simp add: parseInt_abc new_Date_def TimeClip_def)
  have parsed': "parse_params reject_all mixed_ts_post = Return (parameter_object (parameter mixed_ts_post))"
    by (simp add: parse_params_def mixed_ts_post_def form_post_def)
  have fields': "getProp (parameter_object (parameter mixed_ts_post)) ''event'' = Return (Some (JStr ''heartbeat''))"
    "getProp (parameter_object (parameter mixed_ts_post)) ''userId'' = Return (Some (JStr ''u1''))"
    "getProp (parameter_object (parameter mixed_ts_post)) ''ts'' = Return (Some (JStr ''12abc''))"
    by (simp_all add: getProp_parameter_object mixed_ts_post_def form_post_def)
  have twelve: "new_Date (parseInt (ToString (JStr ''12abc''))) = Some 12"
    by (simp add: parseInt_12abc new_Date_def TimeClip_def)
  have iso: "toISOString (Some 12) = Return ''1970-01-01T00:00:00.012Z''"
    using toISOString_12 by (simp add: new_Date_def TimeClip_def)
  have writable: "editable empty_book"
    by (simp add: empty_book_def editable_def)
  have before: "log_rows bound_world ''book-1'' = None"
    by (simp add: log_rows_def bound_world_def empty_book_def)
  from C10_ts_read_by_parseInt [OF parsed fields(1) _ fields(2) _ fields(3), where w = bound_world] nan
  have rejected: "doPost reject_all bad_ts_post bound_world =
     (\<lparr>content = ''{'' @ [CHR 0x22] @ ''ok'' @ [CHR 0x22] @ '':false,'' @ [CHR 0x22] @ ''error''
                  @ [CHR 0x22] @ '':'' @ [CHR 0x22] @ ''Invalid time value'' @ [CHR 0x22] @ ''}'',
       mimeType = JSON\<rparr>,
      bound_world\<lparr>console := [''Error in doPost: Invalid time value'']\<rparr>)"
    by simp (simp add: bound_world_def)
  from C10_ts_read_by_parseInt [OF parsed' fields'(1) _ fields'(2) _ fields'(3),
      where t = 12 and w = bound_world and i = "''book-1''" and ss = empty_book]

  have "\<exists>iso r. toISOString (Some 12) = Return iso
      \<and> log_rows (snd (doPost reject_all mixed_ts_post bound_world)) ''book-1'' = Some [headers, r]
      \<and> r ! 0 = JStr iso"
    using select_store_bound_world writable twelve before by auto
  with iso have stored: "\<exists>r. log_rows (snd (doPost reject_all mixed_ts_post bound_world)) ''book-1''
             = Some [headers, r]
          \<and> r ! 0 = JStr ''1970-01-01T00:00:00.012Z''"
    by auto
  from rejected stored show ?thesis
    by (simp add: log_rows_def bound_world_def empty_book_def)
qed

section \<open>The client beacon\<close>

text \<open>
  C4. With no endpoint URL stored, or with a stored URL that does not end with
  \<^verbatim>\<open>/exec\<close>, a submission calls \<^verbatim>\<open>fetch\<close> not at all: the list of requests is
  as before, storage is as before, and the status element shows the configuration
  error (missing URL for none or the empty string, wrong suffix otherwise).
\<close>

theorem C4_no_request_without_endpoint:
  assumes "localStorage b GAS_URL = None
    \<or> (\<exists>gasUrl. localStorage b GAS_URL = Some gasUrl \<and> \<not> endsWith gasUrl ''/exec'')"
  shows "requests (sendLogSimple fetch amb p b) = requests b
    \<and> localStorage (sendLogSimple fetch amb p b) = localStorage b
    \<and> status (sendLogSimple fetch amb p b) =
        \<lparr>textContent =
           (if localStorage b GAS_URL = None \<or> localStorage b GAS_URL = Some []
            then ''Missing Web App URL. Please save a valid URL first.''
            else ''URL must end with /exec''),
         className = ''error''\<rparr>"
  using assms
  by (auto simp: sendLogSimple_def updateStatus_def Let_def not_endsWith_Nil split: option.splits)

theorem C4_no_request_without_endpoint_witness:
  "requests (sendLogSimple offline example_ambient cta_click_A fresh_browser) = []
   \<and> status (sendLogSimple offline example_ambient cta_click_A fresh_browser) =
       \<lparr>textContent = ''Missing Web App URL. Please save a valid URL first.'', className = ''error''\<rparr>
   \<and> requests (sendLogSimple offline example_ambient cta_click_A
         (fresh_browser\<lparr>localStorage := [''gas_url'' \<mapsto> ''https://example.google.com/dev'']\<rparr>)) = []
   \<and> status (sendLogSimple offline example_ambient cta_click_A
         (fresh_browser\<lparr>localStorage := [''gas_url'' \<mapsto> ''https://example.google.com/dev'']\<rparr>)) =
       \<lparr>textContent = ''URL must end with /exec'', className = ''error''\<rparr>"
proof -
  let ?dev = "fresh_browser\<lparr>localStorage := [''gas_url'' \<mapsto> ''https://example.google.com/dev'']\<rparr>"
  have none: "localStorage fresh_browser GAS_URL = None"
    by (simp add: fresh_browser_def)
  have dev: "localStorage ?dev GAS_URL = Some ''https://example.google.com/dev''"
    by (simp add: GAS_URL_def)
  have suffix: "\<not> endsWith ''https://example.google.com/dev'' ''/exec''"
    by (simp add: endsWith_def)
  from dev suffix have "localStorage ?dev GAS_URL = None
      \<or> (\<exists>gasUrl. localStorage ?dev GAS_URL = Some gasUrl \<and> \<not> endsWith gasUrl ''/exec'')"
    by simp
  from C4_no_request_without_endpoint [OF this, of offline example_ambient cta_click_A]
    C4_no_request_without_endpoint [of fresh_browser offline example_ambient cta_click_A] none
  show ?thesis
    by (simp add: dev) (simp add: fresh_browser_def GAS_URL_def)
qed

lemma getOrCreateUserId_stored:
  assumes "localStorage b USER_ID = Some u" and "u \<noteq> []"
  shows "getOrCreateUserId amb b = (u, b)"
  using assms by (simp add: getOrCreateUserId_def Let_def)

lemma getOrCreateUserId_stores:
  assumes "getOrCreateUserId amb b = (u, b')"
  shows "u \<noteq> [] \<and> localStorage b' USER_ID = Some u"
  using assms
  by (auto simp: getOrCreateUserId_def Let_def split: option.splits if_splits)

lemma getOrCreateUserId_others:
  assumes "getOrCreateUserId amb b = (u, b')"
  shows "b' = b\<lparr>localStorage := (localStorage b)(USER_ID \<mapsto> u)\<rparr>"
  using assms
  by (auto simp: getOrCreateUserId_def Let_def fun_upd_idem split: option.splits if_splits)

lemma keys_differ:
  "GAS_URL \<noteq> USER_ID"
  by (simp add: GAS_URL_def USER_ID_def)

lemma localStorage_updateStatus:
  "localStorage (updateStatus msg isError b) = localStorage b"
  by (simp add: updateStatus_def Let_def)

lemma localStorage_logging_failed:
  "localStorage (logging_failed err b) = localStorage b"
  by (simp add: logging_failed_def localStorage_updateStatus)

lemma localStorage_sendLogSimple:
  "localStorage (sendLogSimple fetch amb p b) = localStorage b
   \<or> localStorage (sendLogSimple fetch amb p b) = localStorage (snd (getOrCreateUserId amb b))"
  by (auto simp: sendLogSimple_def Let_def localStorage_updateStatus localStorage_logging_failed
      split: option.splits prod.splits fetch_result.splits completion.splits)

text \<open>
  C8. A stored, non-empty identifier is returned as it is and the page is left as it
  is. Whatever the storage, the identifier that a call returns is not empty and is
  stored, and a second call (at any time, with any random text) returns the same
  identifier and changes nothing. A submission, a save of the URL and \<^verbatim>\<open>init\<close> leave a
  stored identifier in place.
\<close>

theorem C8_identifier_stable:
  "(localStorage b USER_ID = Some u \<and> u \<noteq> [] \<longrightarrow> getOrCreateUserId amb b = (u, b))
   \<and> fst (getOrCreateUserId amb b) \<noteq> []
   \<and> getOrCreateUserId amb' (snd (getOrCreateUserId amb b))
       = (fst (getOrCreateUserId amb b), snd (getOrCreateUserId amb b))
   \<and> (localStorage b USER_ID = Some u \<and> u \<noteq> []
        \<longrightarrow> localStorage (sendLogSimple fetch amb p b) USER_ID = Some u
          \<and> localStorage (saveUrl_click b) USER_ID = Some u
          \<and> localStorage (init amb b) USER_ID = Some u)"
proof (intro conjI impI)
  assume "localStorage b USER_ID = Some u \<and> u \<noteq> []"
  then show "getOrCreateUserId amb b = (u, b)"
    by (simp add: getOrCreateUserId_stored)
next
  obtain u1 b1 where first: "getOrCreateUserId amb b = (u1, b1)"
    by (cases "getOrCreateUserId amb b")
  from getOrCreateUserId_stores [OF first] show "fst (getOrCreateUserId amb b) \<noteq> []"
    by (simp add: first)
  from getOrCreateUserId_stores [OF first]
  show "getOrCreateUserId amb' (snd (getOrCreateUserId amb b))
      = (fst (getOrCreateUserId amb b), snd (getOrCreateUserId amb b))"
    by (simp add: first getOrCreateUserId_stored)
next
  assume stored: "localStorage b USER_ID = Some u \<and> u \<noteq> []"
  then have same: "getOrCreateUserId amb b = (u, b)"
    by (simp add: getOrCreateUserId_stored)
  with localStorage_sendLogSimple [of fetch amb p b] stored
  show "localStorage (sendLogSimple fetch amb p b) USER_ID = Some u"
    by auto
  from stored show "localStorage (saveUrl_click b) USER_ID = Some u"
    using keys_differ
    by (auto simp: saveUrl_click_def Let_def localStorage_updateStatus updateStatus_def)
  from stored show "localStorage (init amb b) USER_ID = Some u"
    by (auto simp: init_def Let_def getOrCreateUserId_stored split: option.splits)
qed

theorem C8_identifier_stable_witness:
  "getOrCreateUserId example_ambient configured_browser
     = (''usr_loyw3v28_4fzyo82mv'', configured_browser)
   \<and> getOrCreateUserId example_ambient fresh_browser
     = (''usr_loyw3v28_4fzyo82mv'', fresh_browser\<lparr>localStorage := [''uid'' \<mapsto> ''usr_loyw3v28_4fzyo82mv'']\<rparr>)
   \<and> localStorage (saveUrl_click configured_browser) USER_ID = Some ''usr_loyw3v28_4fzyo82mv''"
proof -
  have stored: "localStorage configured_browser USER_ID = Some ''usr_loyw3v28_4fzyo82mv''"
    by (simp add: configured_browser_def USER_ID_def)
  have base36: "Number_toString 1700000000000 36 = ''loyw3v28''"
    unfolding Number_toString_def
    by (simp add: digits_of.simps digit_char_def)
  have created: "getOrCreateUserId example_ambient fresh_browser
     = (''usr_loyw3v28_4fzyo82mv'', fresh_browser\<lparr>localStorage := [''uid'' \<mapsto> ''usr_loyw3v28_4fzyo82mv'']\<rparr>)"
    unfolding getOrCreateUserId_def Let_def
    by (simp add: fresh_browser_def example_ambient_def base36 substr_def USER_ID_def)
  from C8_identifier_stable [of configured_browser "''usr_loyw3v28_4fzyo82mv''" example_ambient
      example_ambient offline cta_click_A] stored created
  show ?thesis
    by simp
qed



lemma requests_updateStatus:
  "requests (updateStatus msg isError b) = requests b"
  by (simp add: updateStatus_def Let_def)

lemma requests_logging_failed:
  "requests (logging_failed err b) = requests b"
  by (simp add: logging_failed_def requests_updateStatus)

lemma requests_getOrCreateUserId:
  "requests (snd (getOrCreateUserId amb b)) = requests b"
  by (simp add: getOrCreateUserId_def Let_def split: option.splits)

lemma requests_sendLogSimple:
  assumes "localStorage b GAS_URL = Some gasUrl" and "endsWith gasUrl ''/exec''"
  shows "requests (sendLogSimple fetch amb p b) =
     requests b @ [\<lparr>url = gasUrl, http_method = ''POST'',
                    body = build_params p amb (fst (getOrCreateUserId amb b))\<rparr>]"
proof -
  from assms(2) have "gasUrl \<noteq> []"
    using not_endsWith_Nil by auto
  moreover obtain userId b' where call: "getOrCreateUserId amb b = (userId, b')"
    by (cases "getOrCreateUserId amb b")
  moreover from call have "requests b' = requests b"
    using requests_getOrCreateUserId [of amb b] by simp
  ultimately show ?thesis
    using assms
    by (simp add: sendLogSimple_def Let_def requests_updateStatus requests_logging_failed
        split: fetch_result.splits completion.splits)
qed

lemma build_params_eq:
  "build_params p amb userId =
     [(''event'', event p)]
     @ (case variant p of None \<Rightarrow> [] | Some v \<Rightarrow> if v = [] then [] else [(''variant'', v)])
     @ [(''userId'', userId),
        (''ts'', Number_toString (Date_now amb) 10),
        (''meta'', JSON_stringify (JObj (spread [(''page'', JStr (pathname amb)),
                                                  (''ua'', JStr (userAgent amb))] (meta p))))]"
  by (simp add: build_params_def Let_def split: option.splits)

lemma fst_getOrCreateUserId_not_Nil:
  "fst (getOrCreateUserId amb b) \<noteq> []"
  using getOrCreateUserId_stores [of amb b] by (cases "getOrCreateUserId amb b") simp

text \<open>
  C3. With an endpoint URL stored that ends with \<^verbatim>\<open>/exec\<close>, a submission calls
  \<^verbatim>\<open>fetch\<close> once, with a POST to that URL whose body is the form fields, in this
  order and no others: \<^verbatim>\<open>event\<close> with the given kind; \<^verbatim>\<open>variant\<close> with the given
  variant, present only when a variant was given (and is not empty); \<^verbatim>\<open>userId\<close> with
  the identifier of identifier management, which is not empty; \<^verbatim>\<open>ts\<close> with the decimal
  text of the clock, which reads back as the clock's value; \<^verbatim>\<open>meta\<close> with the JSON
  text of the object that has \<^verbatim>\<open>page\<close> and \<^verbatim>\<open>ua\<close> and every field of the caller's
  metadata, the caller's value winning where the keys collide.
\<close>

theorem C3_request_body:
  assumes "localStorage b GAS_URL = Some gasUrl" and "endsWith gasUrl ''/exec''"
    and "case meta p of None \<Rightarrow> True | Some ps \<Rightarrow> distinct (map fst ps)"
  shows "\<exists>userId merged.
      requests (sendLogSimple fetch amb p b) =
        requests b @ [\<lparr>url = gasUrl, http_method = ''POST'',
          body = [(''event'', event p)]
            @ (case variant p of None \<Rightarrow> [] | Some v \<Rightarrow> if v = [] then [] else [(''variant'', v)])
            @ [(''userId'', userId),
               (''ts'', Number_toString (Date_now amb) 10),
               (''meta'', JSON_stringify (JObj merged))]\<rparr>]
    \<and> userId = fst (getOrCreateUserId amb b) \<and> userId \<noteq> []
    \<and> parseInt (Number_toString (Date_now amb) 10) = Some (Date_now amb)
    \<and> merged = spread [(''page'', JStr (pathname amb)), (''ua'', JStr (userAgent amb))] (meta p)
    \<and> (\<forall>k. map_of merged k =
          (case meta p of
             None \<Rightarrow> map_of [(''page'', JStr (pathname amb)), (''ua'', JStr (userAgent amb))] k
           | Some ps \<Rightarrow>
               (case map_of ps k of
                  None \<Rightarrow> map_of [(''page'', JStr (pathname amb)), (''ua'', JStr (userAgent amb))] k
                | Some v \<Rightarrow> Some v)))"
proof (intro exI conjI allI)
  show "requests (sendLogSimple fetch amb p b) =
        requests b @ [\<lparr>url = gasUrl, http_method = ''POST'',
          body = [(''event'', event p)]
            @ (case variant p of None \<Rightarrow> [] | Some v \<Rightarrow> if v = [] then [] else [(''variant'', v)])
            @ [(''userId'', fst (getOrCreateUserId amb b)),
               (''ts'', Number_toString (Date_now amb) 10),
               (''meta'', JSON_stringify (JObj (spread [(''page'', JStr (pathname amb)),
                   (''ua'', JStr (userAgent amb))] (meta p))))]\<rparr>]"
    by (simp only: requests_sendLogSimple [OF assms(1,2)] build_params_eq)
  show "fst (getOrCreateUserId amb b) \<noteq> []"
    by (rule fst_getOrCreateUserId_not_Nil)
  show "parseInt (Number_toString (Date_now amb) 10) = Some (Date_now amb)"
    by (rule parseInt_Number_toString)
  show "map_of (spread [(''page'', JStr (pathname amb)), (''ua'', JStr (userAgent amb))] (meta p)) k =
          (case meta p of
             None \<Rightarrow> map_of [(''page'', JStr (pathname amb)), (''ua'', JStr (userAgent amb))] k
           | Some ps \<Rightarrow>
               (case map_of ps k of
                  None \<Rightarrow> map_of [(''page'', JStr (pathname amb)), (''ua'', JStr (userAgent amb))] k
                | Some v \<Rightarrow> Some v))" for k
    by (rule map_of_spread [OF assms(3)])
qed (rule refl)+

theorem C3_request_body_witness:
  "requests (sendLogSimple offline example_ambient cta_click_A configured_browser) =
     [\<lparr>url = ''https://example.google.com/exec'', http_method = ''POST'',
       body = [(''event'', ''cta_click''), (''variant'', ''A''),
               (''userId'', ''usr_loyw3v28_4fzyo82mv''), (''ts'', ''1700000000000''),
               (''meta'', ''{'' @ [CHR 0x22] @ ''page'' @ [CHR 0x22] @ '':'' @ [CHR 0x22]
                          @ ''/index.html'' @ [CHR 0x22] @ '','' @ [CHR 0x22] @ ''ua'' @ [CHR 0x22]
                          @ '':'' @ [CHR 0x22] @ ''Mozilla/5.0'' @ [CHR 0x22] @ ''}'')]\<rparr>]"
proof -
  have url: "localStorage configured_browser GAS_URL = Some ''https://example.google.com/exec''"
    by (simp add: configured_browser_def GAS_URL_def)
  have suffix: "endsWith ''https://example.google.com/exec'' ''/exec''"
    by (simp add: endsWith_def)
  have uid: "fst (getOrCreateUserId example_ambient configured_browser) = ''usr_loyw3v28_4fzyo82mv''"
    by (simp add: getOrCreateUserId_def configured_browser_def USER_ID_def)
  have none: "case meta cta_click_A of None \<Rightarrow> True | Some ps \<Rightarrow> distinct (map fst ps)"
    by (simp add: cta_click_A_def)
  from C3_request_body [OF url suffix none, of offline example_ambient]
  obtain userId merged where
    "requests (sendLogSimple offline example_ambient cta_click_A configured_browser) =
        requests configured_browser @ [\<lparr>url = ''https://example.google.com/exec'', http_method = ''POST'',
          body = [(''event'', event cta_click_A)]
            @ (case variant cta_click_A of None \<Rightarrow> []
               | Some v \<Rightarrow> if v = [] then [] else [(''variant'', v)])
            @ [(''userId'', userId),
               (''ts'', Number_toString (Date_now example_ambient) 10),
               (''meta'', JSON_stringify (JObj merged))]\<rparr>]"
    and "userId = fst (getOrCreateUserId example_ambient configured_browser)"
    and "merged = spread [(''page'', JStr (pathname example_ambient)),
        (''ua'', JStr (userAgent example_ambient))] (meta cta_click_A)"
    by blast
  then show ?thesis
    by (simp add: uid)
       (simp add: cta_click_A_def example_ambient_def Number_toString_1700000000000
          configured_browser_def fresh_browser_def spread_def QuoteJSONString_def
          escape_char_def)
qed

section \<open>From the page to the sheet\<close>

lemma toISOString_Some:
  "\<exists>iso. toISOString (Some t) = Return iso"
  by (cases "toISOString (Some t)") (simp_all add: toISOString_Throw)

lemma JSON_stringify_JObj_not_Nil:
  "JSON_stringify (JObj kvs) \<noteq> []"
  by simp

lemma map_of_build_params:
  "map_of (build_params p amb userId) ''event'' = Some (event p)"
  "map_of (build_params p amb userId) ''userId'' = Some userId"
  "map_of (build_params p amb userId) ''ts'' = Some (Number_toString (Date_now amb) 10)"
  "map_of (build_params p amb userId) ''meta'' =
     Some (JSON_stringify (JObj (spread [(''page'', JStr (pathname amb)),
                                          (''ua'', JStr (userAgent amb))] (meta p))))"
  by (simp_all add: build_params_eq split: option.splits)

text \<open>
  C5. The metadata round trip. A page with a valid endpoint submits an event of a
  non-empty kind at a time within the range of dates; the form fields of its request
  reach the endpoint as \<^verbatim>\<open>e.parameter\<close>; the store can be opened and edited. Then the
  endpoint appends one row, and the fifth cell of that row is, character for
  character, the string that the page serialised the merged metadata into and sent as
  \<^verbatim>\<open>meta\<close>.
\<close>

theorem C5_meta_round_trip:
  assumes "localStorage b GAS_URL = Some gasUrl" and "endsWith gasUrl ''/exec''"
    and "event p \<noteq> []" and "\<bar>Date_now amb\<bar> \<le> 8640000000000000"
    and "select_store w = Return (i, ss)" and "editable ss"
  shows "\<exists>req s r.
      requests (sendLogSimple fetch amb p b) = requests b @ [req]
    \<and> s = JSON_stringify (JObj (spread [(''page'', JStr (pathname amb)),
                                         (''ua'', JStr (userAgent amb))] (meta p)))
    \<and> map_of (body req) ''meta'' = Some s
    \<and> fst (doPost JSON_parse (received raw req) w) =
        \<lparr>content = JSON_stringify ok_true, mimeType = JSON\<rparr>
    \<and> log_rows (snd (doPost JSON_parse (received raw req) w)) i =
        Some ((case log_rows w i of None \<Rightarrow> [headers] | Some rs \<Rightarrow> rs) @ [r])
    \<and> length r = 5 \<and> r ! 4 = JStr s"
proof -
  let ?uid = "fst (getOrCreateUserId amb b)"
  let ?fields = "build_params p amb ?uid"
  let ?req = "\<lparr>url = gasUrl, http_method = ''POST'', body = ?fields\<rparr>"
  let ?s = "JSON_stringify (JObj (spread [(''page'', JStr (pathname amb)),
                                         (''ua'', JStr (userAgent amb))] (meta p)))"
  obtain iso where iso: "toISOString (Some (Date_now amb)) = Return iso"
    using toISOString_Some by blast
  let ?r = "[JStr iso, JStr (event p), or_empty (map_option JStr (map_of ?fields ''variant'')),
             JStr ?uid, JStr ?s]"
  have sent: "requests (sendLogSimple fetch amb p b) = requests b @ [?req]"
    by (rule requests_sendLogSimple [OF assms(1,2)])
  have parsed: "parse_params JSON_parse (received raw ?req) = Return (parameter_object ?fields)"
    by (simp add: parse_params_def received_def)
  have date: "new_Date (parseInt (Number_toString (Date_now amb) 10)) = Some (Date_now amb)"
    using assms(4) by (simp add: parseInt_Number_toString new_Date_def TimeClip_def)
  have "rowData (parameter_object ?fields) = Return ?r"
    using assms(3)
    by (simp add: rowData_fields [OF getProp_parameter_object] map_of_build_params
        fst_getOrCreateUserId_not_Nil Number_toString_not_Nil date iso cbind_def or_empty_def)
  then have row: "cbind (parse_params JSON_parse (received raw ?req)) rowData = Return ?r"
    by (simp add: parsed cbind_def)
  have files: "files w i = Some ss"
    using assms(5) by (rule select_store_files)
  have "fst (doPost JSON_parse (received raw ?req) w) =
        \<lparr>content = JSON_stringify ok_true, mimeType = JSON\<rparr>
    \<and> log_rows (snd (doPost JSON_parse (received raw ?req) w)) i =
        Some ((case log_rows w i of None \<Rightarrow> [headers] | Some rs \<Rightarrow> rs) @ [?r])"
    by (simp add: doPost_accepted [OF row assms(5,6)] log_rows_put_sheet [OF files]
        cells_ensure_logs [OF files])
  with sent show ?thesis
    by (intro exI [of _ ?req] exI [of _ ?s] exI [of _ ?r]) (simp add: map_of_build_params)
qed

lemma tagged_meta_text:
  "JSON_stringify (JObj (spread [(''page'', JStr (pathname example_ambient)),
        (''ua'', JStr (userAgent example_ambient))] (meta tagged_click)))
   = ''{'' @ [CHR 0x22] @ ''page'' @ [CHR 0x22] @ '':'' @ [CHR 0x22] @ ''/landing'' @ [CHR 0x22]
       @ '','' @ [CHR 0x22] @ ''ua'' @ [CHR 0x22] @ '':'' @ [CHR 0x22] @ ''Mozilla/5.0'' @ [CHR 0x22]
       @ '','' @ [CHR 0x22] @ ''campaign'' @ [CHR 0x22] @ '':7}''"
proof -
  have idx: "array_index ''campaign'' = None"
    by (simp add: array_index_def is_digit_def digit_value_def)
  have seven: "Number_toString 7 10 = ''7''"
    unfolding Number_toString_def by (simp add: digits_of.simps digit_char_def)
  have "spread [(''page'', JStr (pathname example_ambient)),
        (''ua'', JStr (userAgent example_ambient))] (meta tagged_click)
      = [(''page'', JStr ''/landing''), (''ua'', JStr ''Mozilla/5.0''), (''campaign'', JNum 7)]"
    by (simp add: spread_def tagged_click_def example_ambient_def set_property_def idx)
  then show ?thesis
    by (simp add: seven QuoteJSONString_def escape_char_def)
qed

theorem C5_meta_round_trip_witness:
  "\<exists>req r.
      requests (sendLogSimple offline example_ambient tagged_click configured_browser) = [req]
    \<and> map_of (body req) ''meta'' =
        Some (''{'' @ [CHR 0x22] @ ''page'' @ [CHR 0x22] @ '':'' @ [CHR 0x22] @ ''/landing''
              @ [CHR 0x22] @ '','' @ [CHR 0x22] @ ''ua'' @ [CHR 0x22] @ '':'' @ [CHR 0x22]
              @ ''Mozilla/5.0'' @ [CHR 0x22] @ '','' @ [CHR 0x22] @ ''campaign'' @ [CHR 0x22]
              @ '':7}'')
    \<and> log_rows (snd (doPost reject_all (received [] req) bound_world)) ''book-1''
        = Some [headers, r]
    \<and> r ! 4 =
        JStr (''{'' @ [CHR 0x22] @ ''page'' @ [CHR 0x22] @ '':'' @ [CHR 0x22] @ ''/landing''
              @ [CHR 0x22] @ '','' @ [CHR 0x22] @ ''ua'' @ [CHR 0x22] @ '':'' @ [CHR 0x22]
              @ ''Mozilla/5.0'' @ [CHR 0x22] @ '','' @ [CHR 0x22] @ ''campaign'' @ [CHR 0x22]
              @ '':7}'')"
proof -
  have url: "localStorage configured_browser GAS_URL = Some ''https://example.google.com/exec''"
    by (simp add: configured_browser_def GAS_URL_def)
  have suffix: "endsWith ''https://example.google.com/exec'' ''/exec''"
    by (simp add: endsWith_def)
  have kind: "event tagged_click \<noteq> []"
    by (simp add: tagged_click_def)
  have time: "\<bar>Date_now example_ambient\<bar> \<le> 8640000000000000"
    by (simp add: example_ambient_def)
  have writable: "editable empty_book"
    by (simp add: empty_book_def editable_def)
  have before: "log_rows bound_world ''book-1'' = None"
    by (simp add: log_rows_def bound_world_def empty_book_def)
  have none: "requests configured_browser = []"
    by (simp add: configured_browser_def fresh_browser_def)
  from C5_meta_round_trip [OF url suffix kind time select_store_bound_world writable,
      of offline reject_all "[]"]
  show ?thesis
    unfolding tagged_meta_text before none by auto
qed

end
